theory Spec2Isabelle
  imports
    Complex_Main
    "HOL-Library.Product_Lexorder"
    "HOL-Library.AList"
    "HOL-Library.Multiset"
    "HOL-Library.Sublist"
begin

section \<open>Shuffle metadata of a DeepLabCut project\<close>

text \<open>
  A shallow embedding of \<^verbatim>\<open>deeplabcut/generate_training_dataset/metadata.py\<close>.
  Python integers are \<open>int\<close>. A train fraction is a Python float; it is modelled by the
  rational number it denotes (\<open>rat\<close>), so that \<open>==\<close> and \<open><\<close> on floats are \<open>=\<close> and \<open><\<close>
  on \<open>rat\<close>; not-a-number is not represented. Tuples of the source are lists.
\<close>

subsection \<open>Exceptions\<close>

text \<open>
  The source raises \<^verbatim>\<open>RuntimeError\<close> and \<^verbatim>\<open>ValueError\<close>, told apart by their message
  only. An error value carries the message, with every interpolated field of the
  f-string left as written between braces.
\<close>

datatype error =
    RuntimeError string
  | ValueError string
  | OverflowError string
  | IndexError
  | FileNotFoundError
  | UnpicklingError

fun message :: "error \<Rightarrow> string" where
  "message (RuntimeError text) = text"
| "message (ValueError text) = text"
| "message (OverflowError text) = text"
| "message e = []"

definition InvalidSplit :: error where
  "InvalidSplit = RuntimeError
     ''The training and test indices in a data split must be sorted in strictly ascending order.''"

definition UnsortedShuffles :: error where
  "UnsortedShuffles = RuntimeError
     ''The shuffles given must be sorted in order of ascending training fraction and index. Found {self.shuffles}''"

definition DuplicateShuffle :: error where
  "DuplicateShuffle = RuntimeError
     ''Cannot add {shuffle} to the meta: a shuffle with index {shuffle.index} and train_fraction {shuffle.train_fraction} already exists: {self.shuffles}.''"

definition SplitFileMissing :: error where
  "SplitFileMissing = ValueError
     ''Could not load the metadata file for {self} as {doc_path} does not exist. If you deleted the shuffle, you also need to delete the shuffle from metadata.yaml or recreate the metadata.yaml file.''"

definition ShuffleNotFound :: error where
  "ShuffleNotFound = ValueError
     ''Could not find a shuffle with trainingset fraction {train_fraction} and index {index}''"

definition NoEngineFound :: error where
  "NoEngineFound = ValueError
     ''Couldn't find any shuffles with trainingsetindex={trainingsetindex}, shuffle={shuffle} and modelprefix={modelprefix}. Please check that such a shuffle is defined.''"

definition UnknownEngine :: error where
  "UnknownEngine = ValueError ''{value} is not a valid Engine''"

subsection \<open>DataSplit\<close>

record DataSplit =
  train_indices :: "int list"
  test_indices :: "int list"

text \<open>
  \<^verbatim>\<open>np.array(indices)\<close> on a tuple of Python integers, with NumPy on a 64-bit platform.
  An integer from \<open>-2^63\<close> to \<open>2^63 - 1\<close> is taken for an int64, one from \<open>2^63\<close> to
  \<open>2^64 - 1\<close> for a uint64 and any other for a Python object. The array gets the common
  type of its elements: int64 together with uint64 gives float64, and an object among
  the elements gives an array of objects. The array of the empty tuple is a float64
  array.
\<close>

datatype np_dtype = NpInt64 | NpUInt64 | NpFloat64 | NpObject

definition int_dtype :: "int \<Rightarrow> np_dtype" where
  "int_dtype v =
     (if - (2 ^ 63) \<le> v \<and> v < 2 ^ 63 then NpInt64
      else if 2 ^ 63 \<le> v \<and> v < 2 ^ 64 then NpUInt64
      else NpObject)"

fun promote_types :: "np_dtype \<Rightarrow> np_dtype \<Rightarrow> np_dtype" where
  "promote_types NpObject t = NpObject"
| "promote_types t NpObject = NpObject"
| "promote_types NpFloat64 t = NpFloat64"
| "promote_types t NpFloat64 = NpFloat64"
| "promote_types NpInt64 NpInt64 = NpInt64"
| "promote_types NpUInt64 NpUInt64 = NpUInt64"
| "promote_types NpInt64 NpUInt64 = NpFloat64"
| "promote_types NpUInt64 NpInt64 = NpFloat64"

definition array_dtype :: "int list \<Rightarrow> np_dtype" where
  "array_dtype indices =
     (case indices of
        [] \<Rightarrow> NpFloat64
      | v # vs \<Rightarrow> fold (\<lambda>u t. promote_types t (int_dtype u)) vs (int_dtype v))"

text \<open>
  The value of the float64 that an integer of magnitude below \<open>2^64\<close> is converted to:
  the 53 leading bits are kept and the rest is rounded to nearest, a tie to the even
  neighbour. Here \<open>e\<close> is the number of bits dropped.
\<close>

definition float64_of_int :: "int \<Rightarrow> int" where
  "float64_of_int v =
     (let n = \<bar>v\<bar>;
          e = length (filter (\<lambda>k. 2 ^ (52 + k) \<le> n) [1, 2, 3, 4, 5, 6, 7, 8, 9, 10, 11 :: nat]);
          q = n div 2 ^ e;
          r = n mod 2 ^ e
      in sgn v * ((if 2 ^ e < 2 * r \<or> (2 * r = 2 ^ e \<and> odd q) then q + 1 else q) * 2 ^ e))"

text \<open>The values of the elements of \<^verbatim>\<open>np.array(indices)\<close>.\<close>

definition np_array :: "int list \<Rightarrow> int list" where
  "np_array indices =
     (if array_dtype indices = NpFloat64 then map float64_of_int indices else indices)"

text \<open>
  The test of \<^verbatim>\<open>DataSplit.__post_init__\<close> on one tuple:
  \<^verbatim>\<open>idx = np.array(indices)\<close>, then \<^verbatim>\<open>np.all(idx[:-1] < idx[1:])\<close>, the elementwise
  comparison of the array without its last element against the array without its
  first one.
\<close>

definition indices_ascending :: "int list \<Rightarrow> bool" where
  "indices_ascending indices =
     (let idx = np_array indices
      in list_all (\<lambda>(a, b). a < b) (zip (butlast idx) (tl idx)))"

text \<open>
  The constructor of the frozen dataclass: the fields are stored as given, then
  \<^verbatim>\<open>__post_init__\<close> checks the train indices, then the test indices.
\<close>

definition DataSplit_init :: "int list \<Rightarrow> int list \<Rightarrow> error + DataSplit" where
  "DataSplit_init train test =
     (if \<not> indices_ascending train then Inl InvalidSplit
      else if \<not> indices_ascending test then Inl InvalidSplit
      else Inr \<lparr>train_indices = train, test_indices = test\<rparr>)"

text \<open>The specification's wording: every element is smaller than all later ones.\<close>

definition strictly_ascending :: "int list \<Rightarrow> bool" where
  "strictly_ascending idx = sorted_wrt (<) idx"

text \<open>Indices that are int64 values, as the indices of the images of a dataset are.\<close>

definition int64_values :: "int list \<Rightarrow> bool" where
  "int64_values idx = list_all (\<lambda>v. - (2 ^ 63) \<le> v \<and> v < 2 ^ 63) idx"

subsection \<open>Engine\<close>

text \<open>
  Modelled from the spec: the enumeration \<^verbatim>\<open>deeplabcut.core.engine.Engine\<close>, which is not
  part of the sources at hand. The specification gives a closed enumeration of the two
  tags TF and PYTORCH, each with a list of alias strings whose first element is the one
  written to disk (``tensorflow'', ``pytorch''); \<^verbatim>\<open>Engine(alias)\<close> fails on an
  unknown alias.
\<close>

datatype Engine = PYTORCH | TF

definition all_engines :: "Engine list" where
  "all_engines = [PYTORCH, TF]"

fun aliases :: "Engine \<Rightarrow> string list" where
  "aliases PYTORCH = [''pytorch'']"
| "aliases TF = [''tensorflow'']"

definition Engine_of :: "string \<Rightarrow> error + Engine" where
  "Engine_of v =
     (case find (\<lambda>e. v \<in> set (aliases e)) all_engines of
        Some e \<Rightarrow> Inr e
      | None \<Rightarrow> Inl UnknownEngine)"

subsection \<open>Project configuration, files and library functions\<close>

text \<open>The keys of the project's \<^verbatim>\<open>config.yaml\<close> that the module reads.\<close>

record config =
  Task :: string
  date :: string
  project_path :: string
  TrainingFraction :: "rat list"

text \<open>
  A number as a pickled index collection may hold it: an integer, a float with a
  finite value (the rational it denotes), not-a-number, or an infinity. The built-in
  \<^verbatim>\<open>int\<close> returns an integer as it is, cuts the fraction of a finite float off
  (rounding towards zero) and raises on the other two.
\<close>

datatype py_number = PyInt int | PyFloat rat | PyNaN | PyInf

fun py_int :: "py_number \<Rightarrow> error + int" where
  "py_int (PyInt i) = Inr i"
| "py_int (PyFloat q) = Inr (if q < 0 then \<lceil>q\<rceil> else \<lfloor>q\<rfloor>)"
| "py_int PyNaN = Inl (ValueError ''cannot convert float NaN to integer'')"
| "py_int PyInf = Inl (OverflowError ''cannot convert float infinity to integer'')"

text \<open>The comprehension \<^verbatim>\<open>[int(idx) for idx in train_idx]\<close>.\<close>

fun cast_all :: "py_number list \<Rightarrow> error + int list" where
  "cast_all [] = Inr []"
| "cast_all (x # xs) =
     (case py_int x of
        Inl e \<Rightarrow> Inl e
      | Inr i \<Rightarrow>
          (case cast_all xs of
             Inl e \<Rightarrow> Inl e
           | Inr rest \<Rightarrow> Inr (i # rest)))"

text \<open>
  A file of the training-set folder is either a pickled documentation tuple
  \<^verbatim>\<open>(payload, train_idx, test_idx, train_frac)\<close>, whose payload is never read, or
  something that \<^verbatim>\<open>pickle.load\<close> rejects.
\<close>

datatype file_content =
    ShuffleDoc "py_number list" "py_number list" rat
  | OtherContent

text \<open>One value of the mapping under the key \<^verbatim>\<open>shuffles\<close> of \<^verbatim>\<open>metadata.yaml\<close>.\<close>

record yaml_shuffle =
  yaml_train_fraction :: rat
  yaml_index :: int
  yaml_split :: nat
  yaml_engine :: string

text \<open>
  The mapping itself, in document order. Dumping it and loading it again with
  \<^verbatim>\<open>ruamel.yaml\<close> is taken to give the same mapping in the same order.
\<close>

type_synonym yaml_doc = "(string \<times> yaml_shuffle) list"

text \<open>
  The part of the file system the module touches, for one project:
  the parsed \<^verbatim>\<open>metadata.yaml\<close> at \<^verbatim>\<open>TrainingDatasetMetadata.path(cfg)\<close> when it exists, the
  other files of the training-set folder by name in the order \<^verbatim>\<open>iterdir\<close> lists them,
  and the model folders that exist, named relative to the project path.
\<close>

record FileSystem =
  metadata_file :: "yaml_doc option"
  trainset_files :: "(string \<times> file_content) list"
  model_folders :: "string set"

text \<open>
  Functions the module calls and that are defined elsewhere:
  \<^verbatim>\<open>auxiliaryfunctions.get_data_and_metadata_filenames\<close> (the name of the documentation
  file, its second result) and \<^verbatim>\<open>auxiliaryfunctions.get_model_folder\<close>;
  the f-string \<^verbatim>\<open>f"{prefix}-trainset{int(100 * train_frac)}shuffle{index}"\<close>, which rounds in
  floating point; \<^verbatim>\<open>Path.stem\<close>; \<^verbatim>\<open>int\<close> on a string (\<open>None\<close> when it raises);
  and \<^verbatim>\<open>set.pop\<close>, whose choice among several elements depends on the hash seed of
  the process.
\<close>

record externals =
  get_metadata_filename :: "config \<Rightarrow> rat \<Rightarrow> int \<Rightarrow> string"
  get_model_folder :: "config \<Rightarrow> rat \<Rightarrow> int \<Rightarrow> Engine \<Rightarrow> string \<Rightarrow> string"
  format_shuffle_name :: "string \<Rightarrow> rat \<Rightarrow> int \<Rightarrow> string"
  path_stem :: "string \<Rightarrow> string"
  int_of_str :: "string \<Rightarrow> int option"
  set_pop :: "Engine set \<Rightarrow> Engine"

text \<open>What \<^verbatim>\<open>set.pop\<close> guarantees: an element of the set it is called on.\<close>

definition pop_returns_member :: "externals \<Rightarrow> bool" where
  "pop_returns_member ext = (\<forall>S. S \<noteq> {} \<longrightarrow> set_pop ext S \<in> S)"

definition InvalidLiteral :: error where
  "InvalidLiteral = ValueError ''invalid literal for int() with base 10: {text}''"

text \<open>Python's \<^verbatim>\<open>xs[i]\<close>: a negative index counts from the end.\<close>

definition py_getitem :: "'a list \<Rightarrow> int \<Rightarrow> error + 'a" where
  "py_getitem xs i =
     (if 0 \<le> i \<and> i < int (length xs) then Inr (xs ! nat i)
      else if i < 0 \<and> - int (length xs) \<le> i then Inr (xs ! nat (int (length xs) + i))
      else Inl IndexError)"

subsection \<open>ShuffleMetadata\<close>

record ShuffleMetadata =
  name :: string
  train_fraction :: rat
  index :: int
  engine :: Engine
  split :: "DataSplit option"

text \<open>
  \<^verbatim>\<open>ShuffleMetadata.load_split\<close>. The training-set folder passed by the callers is the
  folder of \<^verbatim>\<open>metadata.yaml\<close>, whose files are \<open>trainset_files\<close>.
\<close>

definition load_split ::
  "externals \<Rightarrow> FileSystem \<Rightarrow> config \<Rightarrow> ShuffleMetadata \<Rightarrow> error + ShuffleMetadata" where
  "load_split ext fs cfg self =
     (case map_of (trainset_files fs)
             (get_metadata_filename ext cfg (train_fraction self) (index self)) of
        None \<Rightarrow> Inl SplitFileMissing
      | Some OtherContent \<Rightarrow> Inl UnpicklingError
      | Some (ShuffleDoc train_idx test_idx fraction) \<Rightarrow>
          (case cast_all train_idx of
             Inl e \<Rightarrow> Inl e
           | Inr train \<Rightarrow>
               (case cast_all test_idx of
                  Inl e \<Rightarrow> Inl e
                | Inr test \<Rightarrow>
                    (case DataSplit_init (sort train) (sort test) of
                       Inl e \<Rightarrow> Inl e
                     | Inr sp \<Rightarrow>
                         Inr \<lparr>name = name self, train_fraction = train_fraction self,
                              index = index self, engine = engine self,
                              split = Some sp\<rparr>))))"

subsection \<open>TrainingDatasetMetadata\<close>

record TrainingDatasetMetadata =
  project_config :: config
  shuffles :: "ShuffleMetadata list"

text \<open>The sort key \<^verbatim>\<open>lambda s: (s.train_fraction, s.index)\<close>; pairs compare lexicographically.\<close>

definition shuffle_key :: "ShuffleMetadata \<Rightarrow> rat \<times> int" where
  "shuffle_key s = (train_fraction s, index s)"

text \<open>The test of \<^verbatim>\<open>TrainingDatasetMetadata.__post_init__\<close> on neighbouring shuffles.\<close>

definition shuffles_in_order :: "ShuffleMetadata list \<Rightarrow> bool" where
  "shuffles_in_order shs =
     (let indices = map (\<lambda>s. (train_fraction s, index s)) shs
      in list_all (\<lambda>((frac1, idx1), (frac2, idx2)).
                     frac1 < frac2 \<or> (frac1 = frac2 \<and> idx1 < idx2))
           (zip (butlast indices) (tl indices)))"

definition TrainingDatasetMetadata_init ::
  "config \<Rightarrow> ShuffleMetadata list \<Rightarrow> error + TrainingDatasetMetadata" where
  "TrainingDatasetMetadata_init cfg shs =
     (if shuffles_in_order shs then Inr \<lparr>project_config = cfg, shuffles = shs\<rparr>
      else Inl UnsortedShuffles)"

definition add ::
  "TrainingDatasetMetadata \<Rightarrow> ShuffleMetadata \<Rightarrow> bool \<Rightarrow> error + TrainingDatasetMetadata" where
  "add self shuffle overwrite =
     (let existing_indices =
            map index (filter (\<lambda>s. train_fraction s = train_fraction shuffle) (shuffles self))
      in if index shuffle \<in> set existing_indices \<and> \<not> overwrite then Inl DuplicateShuffle
         else
           let existing_shuffles =
                 filter (\<lambda>s. index s \<noteq> index shuffle \<or> train_fraction s \<noteq> train_fraction shuffle)
                   (shuffles self);
               shuffles' = existing_shuffles @ [shuffle]
           in TrainingDatasetMetadata_init (project_config self)
                (sort_key shuffle_key shuffles'))"

definition get :: "TrainingDatasetMetadata \<Rightarrow> int \<Rightarrow> int \<Rightarrow> error + ShuffleMetadata" where
  "get self trainset_index idx =
     (case py_getitem (TrainingFraction (project_config self)) trainset_index of
        Inl e \<Rightarrow> Inl e
      | Inr fraction \<Rightarrow>
          (case find (\<lambda>shuffle. train_fraction shuffle = fraction \<and> index shuffle = idx)
                  (shuffles self) of
             Some shuffle \<Rightarrow> Inr shuffle
           | None \<Rightarrow> Inl ShuffleNotFound))"

subsubsection \<open>save\<close>

text \<open>
  Lines 220 to 223: the id of a split in the dictionary \<open>data_splits\<close>, entered under
  the next free number when it is new. The dictionary is an association list in
  insertion order, so that its length is \<^verbatim>\<open>len(data_splits)\<close>.
\<close>

definition intern_split ::
  "'k \<Rightarrow> ('k \<times> nat) list \<Rightarrow> nat \<times> ('k \<times> nat) list" where
  "intern_split sp data_splits =
     (case map_of data_splits sp of
        Some split_index \<Rightarrow> (split_index, data_splits)
      | None \<Rightarrow>
          (length data_splits + 1, AList.update sp (length data_splits + 1) data_splits))"

definition yaml_of :: "ShuffleMetadata \<Rightarrow> nat \<Rightarrow> yaml_shuffle" where
  "yaml_of s split_index =
     \<lparr>yaml_train_fraction = train_fraction s, yaml_index = index s,
      yaml_split = split_index, yaml_engine = hd (aliases (engine s))\<rparr>"

text \<open>Lines 217 and 218: a shuffle without a split gets it from its documentation file.\<close>

definition with_split ::
  "externals \<Rightarrow> FileSystem \<Rightarrow> config \<Rightarrow> ShuffleMetadata \<Rightarrow> error + ShuffleMetadata" where
  "with_split ext fs cfg s = (if split s = None then load_split ext fs cfg s else Inr s)"

text \<open>
  The loop of \<^verbatim>\<open>save\<close> over the remaining shuffles, with the dictionaries
  \<open>metadata["shuffles"]\<close> and \<open>data_splits\<close> built so far. Assigning to a key that is
  present replaces its value in place.
\<close>

fun save_loop ::
  "externals \<Rightarrow> FileSystem \<Rightarrow> config \<Rightarrow> ShuffleMetadata list \<Rightarrow> yaml_doc
     \<Rightarrow> (DataSplit option \<times> nat) list
     \<Rightarrow> error + yaml_doc \<times> (DataSplit option \<times> nat) list" where
  "save_loop ext fs cfg [] metadata data_splits = Inr (metadata, data_splits)"
| "save_loop ext fs cfg (s # rest) metadata data_splits =
     (case with_split ext fs cfg s of
        Inl e \<Rightarrow> Inl e
      | Inr s' \<Rightarrow>
          save_loop ext fs cfg rest
            (AList.update (name s') (yaml_of s' (fst (intern_split (split s') data_splits)))
               metadata)
            (snd (intern_split (split s') data_splits)))"

definition save ::
  "externals \<Rightarrow> FileSystem \<Rightarrow> TrainingDatasetMetadata \<Rightarrow> error + FileSystem" where
  "save ext fs self =
     (case save_loop ext fs (project_config self) (shuffles self) [] [] of
        Inl e \<Rightarrow> Inl e
      | Inr (metadata, data_splits) \<Rightarrow> Inr (fs\<lparr>metadata_file := Some metadata\<rparr>))"

subsubsection \<open>load\<close>

fun load_loop ::
  "externals \<Rightarrow> FileSystem \<Rightarrow> config \<Rightarrow> bool \<Rightarrow> yaml_doc \<Rightarrow> error + ShuffleMetadata list" where
  "load_loop ext fs cfg load_splits [] = Inr []"
| "load_loop ext fs cfg load_splits ((shuffle_name, shuffle_metadata) # rest) =
     (case Engine_of (yaml_engine shuffle_metadata) of
        Inl e \<Rightarrow> Inl e
      | Inr eng \<Rightarrow>
          (let shuffle = \<lparr>name = shuffle_name,
                          train_fraction = yaml_train_fraction shuffle_metadata,
                          index = yaml_index shuffle_metadata,
                          engine = eng, split = None\<rparr>
           in case (if load_splits then load_split ext fs cfg shuffle else Inr shuffle) of
                Inl e \<Rightarrow> Inl e
              | Inr shuffle' \<Rightarrow>
                  (case load_loop ext fs cfg load_splits rest of
                     Inl e \<Rightarrow> Inl e
                   | Inr shs \<Rightarrow> Inr (shuffle' # shs))))"

definition load ::
  "externals \<Rightarrow> FileSystem \<Rightarrow> config \<Rightarrow> bool \<Rightarrow> error + TrainingDatasetMetadata" where
  "load ext fs cfg load_splits =
     (case metadata_file fs of
        None \<Rightarrow> Inl FileNotFoundError
      | Some metadata \<Rightarrow>
          (case load_loop ext fs cfg load_splits metadata of
             Inl e \<Rightarrow> Inl e
           | Inr shs \<Rightarrow> TrainingDatasetMetadata_init cfg (sort_key shuffle_key shs)))"

subsubsection \<open>create\<close>

text \<open>
  \<^verbatim>\<open>re.match(r"Documentation_data-.+shuffle[0-9]+\.pickle", f.name)\<close>: a match that starts
  at the first character and may end before the last one; the dot matches every
  character but the newline.
\<close>

definition is_digit :: "char \<Rightarrow> bool" where
  "is_digit c = (c \<in> set ''0123456789'')"

definition match_digits_pickle :: "string \<Rightarrow> bool" where
  "match_digits_pickle s =
     (takeWhile is_digit s \<noteq> [] \<and> prefix ''.pickle'' (dropWhile is_digit s))"

fun match_shuffle_tail :: "string \<Rightarrow> bool" where
  "match_shuffle_tail [] = False"
| "match_shuffle_tail (c # cs) =
     ((prefix ''shuffle'' (c # cs) \<and> match_digits_pickle (drop 7 (c # cs)))
      \<or> (c \<noteq> CHR 0x0A \<and> match_shuffle_tail cs))"

definition re_match_doc :: "string \<Rightarrow> bool" where
  "re_match_doc fname =
     (prefix ''Documentation_data-'' fname
      \<and> (case drop 19 fname of
           [] \<Rightarrow> False
         | c # cs \<Rightarrow> c \<noteq> CHR 0x0A \<and> match_shuffle_tail cs))"

text \<open>\<^verbatim>\<open>text.split("shuffle")[-1]\<close>: what follows the last occurrence of the separator.\<close>

fun split_shuffle_last :: "string \<Rightarrow> string \<Rightarrow> string" where
  "split_shuffle_last piece [] = piece"
| "split_shuffle_last piece (c # cs) =
     (if prefix ''shuffle'' (c # cs) then split_shuffle_last [] (drop 6 cs)
      else split_shuffle_last (piece @ [c]) cs)"

text \<open>
  The loop of \<^verbatim>\<open>create\<close> over the documentation files, with the dictionary
  \<open>existing_splits\<close> built so far; the loop numbers the splits but stores no number.
\<close>

fun create_loop ::
  "externals \<Rightarrow> string \<Rightarrow> (string \<times> file_content) list
     \<Rightarrow> ((int list \<times> int list) \<times> nat) list \<Rightarrow> error + ShuffleMetadata list" where
  "create_loop ext pre [] existing_splits = Inr []"
| "create_loop ext pre ((fname, content) # rest) existing_splits =
     (case int_of_str ext (split_shuffle_last [] (path_stem ext fname)) of
        None \<Rightarrow> Inl InvalidLiteral
      | Some idx \<Rightarrow>
          (case content of
             OtherContent \<Rightarrow> Inl UnpicklingError
           | ShuffleDoc train_idx test_idx train_frac \<Rightarrow>
               (case cast_all train_idx of
                  Inl e \<Rightarrow> Inl e
                | Inr train \<Rightarrow>
                    (case cast_all test_idx of
                       Inl e \<Rightarrow> Inl e
                     | Inr test \<Rightarrow>
                         (case DataSplit_init (sort train) (sort test) of
                            Inl e \<Rightarrow> Inl e
                          | Inr sp \<Rightarrow>
                              (case create_loop ext pre rest
                                      (snd (intern_split (sort train, sort test)
                                              existing_splits)) of
                                 Inl e \<Rightarrow> Inl e
                               | Inr shs \<Rightarrow>
                                   Inr (\<lparr>name = format_shuffle_name ext pre train_frac idx,
                                         train_fraction = train_frac, index = idx,
                                         engine = TF, split = Some sp\<rparr> # shs)))))))"

definition create :: "externals \<Rightarrow> FileSystem \<Rightarrow> config \<Rightarrow> error + TrainingDatasetMetadata" where
  "create ext fs cfg =
     (let shuffle_docs = filter (\<lambda>(fname, content). re_match_doc fname) (trainset_files fs);
          pre = Task cfg @ date cfg
      in case create_loop ext pre shuffle_docs [] of
           Inl e \<Rightarrow> Inl e
         | Inr shs \<Rightarrow> TrainingDatasetMetadata_init cfg (sort_key shuffle_key shs))"

subsection \<open>Engine of a shuffle\<close>

definition find_engines_from_model_folders ::
  "externals \<Rightarrow> FileSystem \<Rightarrow> config \<Rightarrow> int \<Rightarrow> int \<Rightarrow> string \<Rightarrow> error + Engine set" where
  "find_engines_from_model_folders ext fs cfg trainingsetindex shuffle modelprefix =
     (case py_getitem (TrainingFraction cfg) trainingsetindex of
        Inl e \<Rightarrow> Inl e
      | Inr fraction \<Rightarrow>
          Inr (fold (\<lambda>eng existing_engines.
                       if get_model_folder ext cfg fraction shuffle eng modelprefix \<in> model_folders fs
                       then insert eng existing_engines else existing_engines)
                 all_engines {}))"

text \<open>Lines 405 to 407: the metadata file is created from the documentation files when it is missing.\<close>

definition ensure_metadata :: "externals \<Rightarrow> FileSystem \<Rightarrow> config \<Rightarrow> error + FileSystem" where
  "ensure_metadata ext fs cfg =
     (if metadata_file fs = None
      then (case create ext fs cfg of
              Inl e \<Rightarrow> Inl e
            | Inr metadata \<Rightarrow> save ext fs metadata)
      else Inr fs)"

text \<open>Lines 409 to 438, on the file system that \<open>ensure_metadata\<close> leaves.\<close>

definition select_engine ::
  "externals \<Rightarrow> FileSystem \<Rightarrow> config \<Rightarrow> int \<Rightarrow> int \<Rightarrow> string \<Rightarrow> error + Engine" where
  "select_engine ext fs cfg trainingsetindex shuffle modelprefix =
     (case load ext fs cfg False of
        Inl e \<Rightarrow> Inl e
      | Inr metadata \<Rightarrow>
          (case get metadata trainingsetindex shuffle of
             Inl e \<Rightarrow> Inl e
           | Inr shuffle_metadata \<Rightarrow>
               if modelprefix \<noteq> []
               then (case find_engines_from_model_folders ext fs cfg trainingsetindex shuffle
                            modelprefix of
                       Inl e \<Rightarrow> Inl e
                     | Inr engines \<Rightarrow>
                         if card engines = 0 then Inl NoEngineFound
                         else if card engines = 1 then Inr (set_pop ext engines)
                         else if engine shuffle_metadata \<in> engines
                           then Inr (engine shuffle_metadata)
                           else Inr (set_pop ext engines))
               else Inr (engine shuffle_metadata)))"

text \<open>\<^verbatim>\<open>get_shuffle_engine\<close>: the result or the exception, and the file system it leaves.\<close>

definition get_shuffle_engine ::
  "externals \<Rightarrow> FileSystem \<Rightarrow> config \<Rightarrow> int \<Rightarrow> int \<Rightarrow> string
     \<Rightarrow> (error + Engine) \<times> FileSystem" where
  "get_shuffle_engine ext fs cfg trainingsetindex shuffle modelprefix =
     (case ensure_metadata ext fs cfg of
        Inl e \<Rightarrow> (Inl e, fs)
      | Inr fs' \<Rightarrow> (select_engine ext fs' cfg trainingsetindex shuffle modelprefix, fs'))"

section \<open>Notions used in the statements\<close>

text \<open>
  The invariant of a registry in the specification's words: the records are sorted by
  the pair (train fraction, index), ascending, and no two records share a pair.
\<close>

definition registry_invariant :: "TrainingDatasetMetadata \<Rightarrow> bool" where
  "registry_invariant reg =
     (sorted (map shuffle_key (shuffles reg)) \<and> distinct (map shuffle_key (shuffles reg)))"

text \<open>
  A dictionary of interned values as the specification wants it: every key once, and
  the ids 1, 2, ... in the order of insertion.
\<close>

definition numbered :: "('k \<times> nat) list \<Rightarrow> bool" where
  "numbered data_splits =
     (distinct (map fst data_splits) \<and> map snd data_splits = [1..<Suc (length data_splits)])"

text \<open>
  The normalisation of an index collection in the specification's words: every number
  is cast to an integer (an integer stays, a float loses its fraction) and the integers
  are sorted. A collection is well formed when every number can be cast and the
  integers are int64 values with none repeated.
\<close>

definition int_part :: "py_number \<Rightarrow> int" where
  "int_part x =
     (case x of
        PyInt i \<Rightarrow> i
      | PyFloat q \<Rightarrow> (if q < 0 then - 1 else 1) * \<lfloor>\<bar>q\<bar>\<rfloor>
      | PyNaN \<Rightarrow> 0
      | PyInf \<Rightarrow> 0)"

definition castable :: "py_number \<Rightarrow> bool" where
  "castable x = (x \<noteq> PyNaN \<and> x \<noteq> PyInf)"

definition normalized_indices :: "py_number list \<Rightarrow> int list" where
  "normalized_indices xs = sort (map int_part xs)"

definition well_formed_indices :: "py_number list \<Rightarrow> bool" where
  "well_formed_indices xs =
     (list_all castable xs \<and> distinct (map int_part xs) \<and> int64_values (map int_part xs))"

text \<open>
  The split that the documentation file of a record holds, when the file is there with
  well-formed indices; and the split of a record for save: the one it carries or else
  the one of its documentation file.
\<close>

definition split_on_disk ::
  "externals \<Rightarrow> FileSystem \<Rightarrow> config \<Rightarrow> ShuffleMetadata \<Rightarrow> DataSplit option" where
  "split_on_disk ext fs cfg s =
     (case map_of (trainset_files fs)
             (get_metadata_filename ext cfg (train_fraction s) (index s)) of
        Some (ShuffleDoc train_idx test_idx fraction) \<Rightarrow>
          if well_formed_indices train_idx \<and> well_formed_indices test_idx
          then Some \<lparr>train_indices = normalized_indices train_idx,
                     test_indices = normalized_indices test_idx\<rparr>
          else None
      | Some OtherContent \<Rightarrow> None
      | None \<Rightarrow> None)"

definition effective_split ::
  "externals \<Rightarrow> FileSystem \<Rightarrow> config \<Rightarrow> ShuffleMetadata \<Rightarrow> DataSplit option" where
  "effective_split ext fs cfg s =
     (case split s of
        Some sp \<Rightarrow> Some sp
      | None \<Rightarrow> split_on_disk ext fs cfg s)"

text \<open>
  The id of a value interned in first-encounter order: one more than the number of
  different values before its first occurrence.
\<close>

definition first_id :: "'a list \<Rightarrow> 'a \<Rightarrow> nat" where
  "first_id xs x = Suc (card (set (takeWhile (\<lambda>y. y \<noteq> x) xs)))"

text \<open>
  The entry of a record in \<^verbatim>\<open>metadata.yaml\<close>, with the split id it is given and the
  engine under its first alias.
\<close>

definition registry_entry :: "ShuffleMetadata \<Rightarrow> nat \<Rightarrow> string \<times> yaml_shuffle" where
  "registry_entry s split_id =
     (name s,
      \<lparr>yaml_train_fraction = train_fraction s, yaml_index = index s, yaml_split = split_id,
       yaml_engine = (case engine s of PYTORCH \<Rightarrow> ''pytorch'' | TF \<Rightarrow> ''tensorflow'')\<rparr>)"

text \<open>
  The train fraction of a trainset slot, counted from the end when the slot is negative,
  and the slots that the configuration has.
\<close>

definition slot_fraction :: "config \<Rightarrow> int \<Rightarrow> rat" where
  "slot_fraction cfg i =
     TrainingFraction cfg ! nat (if i < 0 then int (length (TrainingFraction cfg)) + i else i)"

definition valid_slot :: "config \<Rightarrow> int \<Rightarrow> bool" where
  "valid_slot cfg i =
     (- int (length (TrainingFraction cfg)) \<le> i \<and> i < int (length (TrainingFraction cfg)))"

text \<open>
  The dictionary that assigning the pairs in their order leaves: a key assigned again
  keeps its place and takes the new value.
\<close>

definition dict_of :: "('k \<times> 'v) list \<Rightarrow> ('k \<times> 'v) list" where
  "dict_of kvs = fold (\<lambda>(k, v). AList.update k v) kvs []"

text \<open>What the loop of \<^verbatim>\<open>create\<close> makes of one documentation file.\<close>

definition doc_shuffle ::
  "externals \<Rightarrow> string \<Rightarrow> string \<times> file_content \<Rightarrow> error + ShuffleMetadata" where
  "doc_shuffle ext pre doc =
     (case create_loop ext pre [doc] [] of
        Inl e \<Rightarrow> Inl e
      | Inr shs \<Rightarrow> Inr (hd shs))"

text \<open>A sequence of \<^verbatim>\<open>add\<close> calls, each with its record and its overwrite flag.\<close>

fun add_all ::
  "TrainingDatasetMetadata \<Rightarrow> (ShuffleMetadata \<times> bool) list \<Rightarrow> error + TrainingDatasetMetadata" where
  "add_all reg [] = Inr reg"
| "add_all reg ((r, overwrite) # calls) =
     (case add reg r overwrite of
        Inl e \<Rightarrow> Inl e
      | Inr reg' \<Rightarrow> add_all reg' calls)"

section \<open>A small project\<close>

text \<open>Concrete values on which the theorems below are exercised.\<close>

definition demo_cfg :: config where
  "demo_cfg = \<lparr>Task = ''demo'', date = ''Jun17'', project_path = ''/data/demo'',
               TrainingFraction = [1 / 2, 3 / 5]\<rparr>"

definition demo_50_1 :: ShuffleMetadata where
  "demo_50_1 = \<lparr>name = ''demoJun17-trainset50shuffle1'', train_fraction = 1 / 2, index = 1,
                engine = TF,
                split = Some \<lparr>train_indices = [1, 3, 4], test_indices = [0, 2]\<rparr>\<rparr>"

definition demo_60_1 :: ShuffleMetadata where
  "demo_60_1 = \<lparr>name = ''demoJun17-trainset60shuffle1'', train_fraction = 3 / 5, index = 1,
                engine = PYTORCH,
                split = Some \<lparr>train_indices = [0, 1, 2], test_indices = [3, 4]\<rparr>\<rparr>"

definition demo_50_1_torch :: ShuffleMetadata where
  "demo_50_1_torch = \<lparr>name = ''demoJun17-trainset50shuffle1'', train_fraction = 1 / 2, index = 1,
                      engine = PYTORCH,
                      split = Some \<lparr>train_indices = [0, 1, 2], test_indices = [3, 4]\<rparr>\<rparr>"

definition demo_50_2 :: ShuffleMetadata where
  "demo_50_2 = \<lparr>name = ''demoJun17-trainset50shuffle2'', train_fraction = 1 / 2, index = 2,
                engine = PYTORCH,
                split = Some \<lparr>train_indices = [1, 3, 4], test_indices = [0, 2]\<rparr>\<rparr>"

definition demo_registry :: TrainingDatasetMetadata where
  "demo_registry = \<lparr>project_config = demo_cfg, shuffles = [demo_50_1, demo_60_1]\<rparr>"

text \<open>
  Stand-ins for the library functions, good for the names of this project: the
  fractions one half and three fifths, the shuffle indices 1 and 2.
\<close>

definition demo_percent :: "rat \<Rightarrow> string" where
  "demo_percent fraction =
     (if fraction = 1 / 2 then ''50'' else if fraction = 3 / 5 then ''60'' else ''95'')"

definition demo_digit :: "int \<Rightarrow> string" where
  "demo_digit idx = (if idx = 1 then ''1'' else if idx = 2 then ''2'' else ''0'')"

definition demo_ext :: externals where
  "demo_ext =
     \<lparr>get_metadata_filename = (\<lambda>cfg fraction idx.
          ''Documentation_data-'' @ Task cfg @ ''_'' @ demo_percent fraction
            @ ''shuffle'' @ demo_digit idx @ ''.pickle''),
      get_model_folder = (\<lambda>cfg fraction idx eng modelprefix.
          modelprefix @ (case eng of PYTORCH \<Rightarrow> ''/dlc-models-pytorch/'' | TF \<Rightarrow> ''/dlc-models/'')
            @ Task cfg @ ''-trainset'' @ demo_percent fraction @ ''shuffle'' @ demo_digit idx),
      format_shuffle_name = (\<lambda>pre fraction idx.
          pre @ ''-trainset'' @ demo_percent fraction @ ''shuffle'' @ demo_digit idx),
      path_stem = (\<lambda>fname. rev (tl (dropWhile (\<lambda>c. c \<noteq> CHR ''.'') (rev fname)))),
      int_of_str = (\<lambda>text. if text = ''1'' then Some 1 else if text = ''2'' then Some 2 else None),
      set_pop = (\<lambda>engines. if PYTORCH \<in> engines then PYTORCH else TF)\<rparr>"

text \<open>A second \<^verbatim>\<open>set.pop\<close>, which prefers the other engine.\<close>

definition demo_ext_tf_first :: externals where
  "demo_ext_tf_first = demo_ext\<lparr>set_pop := (\<lambda>engines. if TF \<in> engines then TF else PYTORCH)\<rparr>"

text \<open>
  A project from before the metadata file: two documentation files with unsorted
  indices, some of them floats, and a file of another kind, and model folders of
  shuffle 1 at one half: without prefix, under the prefix ``exp'' for PyTorch alone, and
  under the prefix ``both'' for either engine; under ``exp'' there is also the
  TensorFlow folder of shuffle 1 at three fifths.
\<close>

definition demo_fs :: FileSystem where
  "demo_fs =
     \<lparr>metadata_file = None,
      trainset_files =
        [(''Documentation_data-demo_60shuffle1.pickle'', ShuffleDoc [PyInt 2, PyInt 0, PyInt 1] [PyInt 4, PyInt 3] (3 / 5)),
         (''CollectedData_me.csv'', OtherContent),
         (''Documentation_data-demo_50shuffle1.pickle'', ShuffleDoc [PyFloat 4, PyInt 1, PyFloat (7 / 2)] [PyInt 0, PyFloat (5 / 2)] (1 / 2))],
      model_folders =
        {''/dlc-models/demo-trainset50shuffle1'',
         ''exp/dlc-models-pytorch/demo-trainset50shuffle1'',
         ''exp/dlc-models/demo-trainset60shuffle1'',
         ''both/dlc-models/demo-trainset50shuffle1'',
         ''both/dlc-models-pytorch/demo-trainset50shuffle1''}\<rparr>"

text \<open>The registry that \<^verbatim>\<open>create\<close> builds from these files.\<close>

definition demo_60_1_tf :: ShuffleMetadata where
  "demo_60_1_tf = \<lparr>name = ''demoJun17-trainset60shuffle1'', train_fraction = 3 / 5, index = 1,
                   engine = TF,
                   split = Some \<lparr>train_indices = [0, 1, 2], test_indices = [3, 4]\<rparr>\<rparr>"

definition demo_created :: TrainingDatasetMetadata where
  "demo_created = \<lparr>project_config = demo_cfg, shuffles = [demo_50_1, demo_60_1_tf]\<rparr>"

definition demo_yaml :: yaml_doc where
  "demo_yaml =
     [(''demoJun17-trainset50shuffle1'',
       \<lparr>yaml_train_fraction = 1 / 2, yaml_index = 1, yaml_split = 1,
        yaml_engine = ''tensorflow''\<rparr>),
      (''demoJun17-trainset60shuffle1'',
       \<lparr>yaml_train_fraction = 3 / 5, yaml_index = 1, yaml_split = 2,
        yaml_engine = ''tensorflow''\<rparr>)]"

definition demo_fs_saved :: FileSystem where
  "demo_fs_saved = demo_fs\<lparr>metadata_file := Some demo_yaml\<rparr>"

definition demo_loaded :: TrainingDatasetMetadata where
  "demo_loaded = \<lparr>project_config = demo_cfg,
                  shuffles = [demo_50_1\<lparr>split := None\<rparr>, demo_60_1_tf\<lparr>split := None\<rparr>]\<rparr>"

text \<open>The registry after adding shuffle 2 at one half, and after replacing shuffle 1 as well.\<close>

definition demo_added :: TrainingDatasetMetadata where
  "demo_added = \<lparr>project_config = demo_cfg, shuffles = [demo_50_1, demo_50_2, demo_60_1]\<rparr>"

definition demo_replaced :: TrainingDatasetMetadata where
  "demo_replaced =
     \<lparr>project_config = demo_cfg, shuffles = [demo_50_1_torch, demo_50_2, demo_60_1]\<rparr>"

text \<open>Shuffle 1 at one half as \<^verbatim>\<open>load\<close> returns it, and a folder whose file for it repeats an index.\<close>

definition demo_50_1_unloaded :: ShuffleMetadata where
  "demo_50_1_unloaded = \<lparr>name = ''demoJun17-trainset50shuffle1'', train_fraction = 1 / 2,
                         index = 1, engine = TF, split = None\<rparr>"

text \<open>The registry with shuffle 2 added, shuffle 1 at one half not yet loaded.\<close>

definition demo_mixed :: TrainingDatasetMetadata where
  "demo_mixed =
     \<lparr>project_config = demo_cfg, shuffles = [demo_50_1_unloaded, demo_50_2, demo_60_1]\<rparr>"

definition demo_fs_repeated :: FileSystem where
  "demo_fs_repeated =
     \<lparr>metadata_file = None,
      trainset_files =
        [(''Documentation_data-demo_50shuffle1.pickle'', ShuffleDoc [PyInt 3, PyInt 1, PyInt 3] [PyInt 0, PyInt 2] (1 / 2))],
      model_folders = {}\<rparr>"

text \<open>The file system after saving the registry with shuffle 2 added.\<close>

definition demo_fs_added :: FileSystem where
  "demo_fs_added = demo_fs\<lparr>metadata_file := Some
     [(''demoJun17-trainset50shuffle1'',
       \<lparr>yaml_train_fraction = 1 / 2, yaml_index = 1, yaml_split = 1,
        yaml_engine = ''tensorflow''\<rparr>),
      (''demoJun17-trainset50shuffle2'',
       \<lparr>yaml_train_fraction = 1 / 2, yaml_index = 2, yaml_split = 1,
        yaml_engine = ''pytorch''\<rparr>),
      (''demoJun17-trainset60shuffle1'',
       \<lparr>yaml_train_fraction = 3 / 5, yaml_index = 1, yaml_split = 2,
        yaml_engine = ''pytorch''\<rparr>)]\<rparr>"

text \<open>
  A shuffle at the fraction 0.505, under the name that
  \<^verbatim>\<open>f"{prefix}-trainset{int(100 * train_fraction)}shuffle{shuffle}"\<close> gives it: the name of
  shuffle 1 at one half. Then a registry with shuffle 1 at one half alone, the registry
  with both, the file system after saving that one, and what load reads back.
\<close>

definition demo_505_1 :: ShuffleMetadata where
  "demo_505_1 = \<lparr>name = ''demoJun17-trainset50shuffle1'', train_fraction = 101 / 200, index = 1,
                 engine = PYTORCH,
                 split = Some \<lparr>train_indices = [0, 1, 2], test_indices = [3, 4]\<rparr>\<rparr>"

definition demo_single :: TrainingDatasetMetadata where
  "demo_single = \<lparr>project_config = demo_cfg, shuffles = [demo_50_1]\<rparr>"

definition demo_collide :: TrainingDatasetMetadata where
  "demo_collide = \<lparr>project_config = demo_cfg, shuffles = [demo_50_1, demo_505_1]\<rparr>"

definition demo_fs_collide :: FileSystem where
  "demo_fs_collide = demo_fs\<lparr>metadata_file := Some
     [(''demoJun17-trainset50shuffle1'',
       \<lparr>yaml_train_fraction = 101 / 200, yaml_index = 1, yaml_split = 2,
        yaml_engine = ''pytorch''\<rparr>)]\<rparr>"

definition demo_collide_loaded :: TrainingDatasetMetadata where
  "demo_collide_loaded =
     \<lparr>project_config = demo_cfg, shuffles = [demo_505_1\<lparr>split := None\<rparr>]\<rparr>"

text \<open>
  The registry after replacing shuffle 1 at one half by a PyTorch record with another
  split, the file system after saving it, and what load reads back with the splits.
\<close>

definition demo_overwritten :: TrainingDatasetMetadata where
  "demo_overwritten = \<lparr>project_config = demo_cfg, shuffles = [demo_50_1_torch, demo_60_1]\<rparr>"

definition demo_fs_overwritten :: FileSystem where
  "demo_fs_overwritten = demo_fs\<lparr>metadata_file := Some
     [(''demoJun17-trainset50shuffle1'',
       \<lparr>yaml_train_fraction = 1 / 2, yaml_index = 1, yaml_split = 1,
        yaml_engine = ''pytorch''\<rparr>),
      (''demoJun17-trainset60shuffle1'',
       \<lparr>yaml_train_fraction = 3 / 5, yaml_index = 1, yaml_split = 1,
        yaml_engine = ''pytorch''\<rparr>)]\<rparr>"

definition demo_overwritten_loaded :: TrainingDatasetMetadata where
  "demo_overwritten_loaded =
     \<lparr>project_config = demo_cfg,
      shuffles = [demo_50_1_torch\<lparr>split := Some \<lparr>train_indices = [1, 3, 4],
                                                  test_indices = [0, 2]\<rparr>\<rparr>,
                  demo_60_1]\<rparr>"

text \<open>The file system after saving the registry of the two TensorFlow and PyTorch records.\<close>

definition demo_fs_registry :: FileSystem where
  "demo_fs_registry = demo_fs\<lparr>metadata_file := Some
     [(''demoJun17-trainset50shuffle1'',
       \<lparr>yaml_train_fraction = 1 / 2, yaml_index = 1, yaml_split = 1,
        yaml_engine = ''tensorflow''\<rparr>),
      (''demoJun17-trainset60shuffle1'',
       \<lparr>yaml_train_fraction = 3 / 5, yaml_index = 1, yaml_split = 2,
        yaml_engine = ''pytorch''\<rparr>)]\<rparr>"

text \<open>The same folder, listed by \<^verbatim>\<open>iterdir\<close> in another order.\<close>

definition demo_fs_reordered :: FileSystem where
  "demo_fs_reordered =
     demo_fs\<lparr>trainset_files :=
        [(''Documentation_data-demo_50shuffle1.pickle'', ShuffleDoc [PyFloat 4, PyInt 1, PyFloat (7 / 2)] [PyInt 0, PyFloat (5 / 2)] (1 / 2)),
         (''Documentation_data-demo_60shuffle1.pickle'', ShuffleDoc [PyInt 2, PyInt 0, PyInt 1] [PyInt 4, PyInt 3] (3 / 5)),
         (''CollectedData_me.csv'', OtherContent)]\<rparr>"

section \<open>Properties\<close>

subsection \<open>The small project evaluated\<close>

lemmas demo_defs = demo_cfg_def demo_50_1_def demo_60_1_def demo_50_1_torch_def demo_50_2_def
  demo_registry_def demo_percent_def demo_digit_def demo_ext_def demo_fs_def demo_60_1_tf_def
  demo_created_def demo_yaml_def demo_fs_saved_def demo_loaded_def demo_added_def
  demo_replaced_def demo_50_1_unloaded_def demo_fs_repeated_def demo_fs_added_def
  demo_505_1_def demo_single_def demo_collide_def demo_fs_collide_def demo_collide_loaded_def
  demo_ext_tf_first_def demo_fs_reordered_def demo_mixed_def demo_overwritten_def
  demo_fs_overwritten_def demo_overwritten_loaded_def demo_fs_registry_def

lemmas split_init_defs = DataSplit_init_def indices_ascending_def np_array_def array_dtype_def
  int_dtype_def

lemma floor_numeral_quotient [simp]:
  "\<lfloor>numeral a / numeral b :: rat\<rfloor> = numeral a div numeral b"
  by (metis floor_divide_of_int_eq of_int_numeral)

lemma demo_doc_names:
  "re_match_doc ''Documentation_data-demo_60shuffle1.pickle''"
  "\<not> re_match_doc ''CollectedData_me.csv''"
  "re_match_doc ''Documentation_data-demo_50shuffle1.pickle''"
  by (simp_all add: re_match_doc_def match_digits_pickle_def is_digit_def)

lemma demo_create: "create demo_ext demo_fs demo_cfg = Inr demo_created"
  by (simp add: create_def demo_defs demo_doc_names split_init_defs
      TrainingDatasetMetadata_init_def shuffles_in_order_def shuffle_key_def intern_split_def)

lemma demo_save: "save demo_ext demo_fs demo_created = Inr demo_fs_saved"
  by (simp add: save_def demo_defs with_split_def intern_split_def yaml_of_def)

lemma demo_load: "load demo_ext demo_fs_saved demo_cfg False = Inr demo_loaded"
  by (simp add: load_def demo_defs Engine_of_def all_engines_def
      TrainingDatasetMetadata_init_def shuffles_in_order_def shuffle_key_def)

lemma demo_add: "add demo_registry demo_50_2 False = Inr demo_added"
  by (simp add: add_def demo_defs TrainingDatasetMetadata_init_def shuffles_in_order_def
      shuffle_key_def)

lemma demo_add_all:
  "add_all demo_registry [(demo_50_2, False), (demo_50_1_torch, True)] = Inr demo_replaced"
  by (simp add: add_def demo_defs TrainingDatasetMetadata_init_def shuffles_in_order_def
      shuffle_key_def)

subsection \<open>Facts about the split constructor\<close>

lemma neighbours_successively:
  "list_all (\<lambda>(a, b). R a b) (zip (butlast xs) (tl xs)) = successively R xs"
  by (induction xs rule: induct_list012) simp_all

lemma indices_ascending_successively:
  "indices_ascending idx = successively (<) (np_array idx)"
  by (simp add: indices_ascending_def neighbours_successively)

lemma successively_less_int: "successively (<) (xs :: int list) = sorted_wrt (<) xs"
  by (rule successively_conv_sorted_wrt) (simp add: transp_def)

lemma int64_dtype:
  "int64_values idx \<Longrightarrow> array_dtype idx = NpInt64 \<or> idx = []"
proof -
  have run: "fold (\<lambda>u t. promote_types t (int_dtype u)) vs NpInt64 = NpInt64"
    if "int64_values vs" for vs
    using that by (induction vs) (simp_all add: int64_values_def int_dtype_def)
  assume "int64_values idx"
  then show ?thesis
    using run [of "tl idx"]
    by (cases idx) (simp_all add: array_dtype_def int64_values_def int_dtype_def)
qed

lemma np_array_int64: "int64_values idx \<Longrightarrow> np_array idx = idx"
  using int64_dtype [of idx] by (auto simp: np_array_def)

lemma indices_ascending_int64:
  "int64_values idx \<Longrightarrow> indices_ascending idx = strictly_ascending idx"
  by (simp add: indices_ascending_successively np_array_int64 successively_less_int
      strictly_ascending_def)

lemma successively_both:
  "successively P xs \<Longrightarrow> successively Q xs \<Longrightarrow> successively (\<lambda>x y. P x y \<and> Q x y) xs"
  by (induction xs rule: induct_list012) simp_all

lemma accepted_neighbours_differ:
  assumes "indices_ascending idx"
  shows "successively (\<lambda>x y. x \<noteq> y) idx"
proof (cases "array_dtype idx = NpFloat64")
  case True
  with assms have "successively (<) (map float64_of_int idx)"
    by (simp add: indices_ascending_successively np_array_def)
  then have "successively (\<lambda>x y. float64_of_int x < float64_of_int y) idx"
    by (simp only: successively_map)
  then show ?thesis
    by (rule successively_mono) auto
next
  case False
  with assms have "successively (<) idx"
    by (simp add: indices_ascending_successively np_array_def)
  then show ?thesis
    by (rule successively_mono) auto
qed

lemma sorted_accepted_distinct:
  assumes "sorted idx" and "indices_ascending idx"
  shows "distinct (idx :: int list)"
proof -
  from assms(1) have "successively (\<le>) idx"
    by (simp add: successively_if_sorted_wrt)
  moreover from assms(2) have "successively (\<lambda>x y. x \<noteq> y) idx"
    by (rule accepted_neighbours_differ)
  ultimately have "successively (\<lambda>x y. x \<le> y \<and> x \<noteq> y) idx"
    by (rule successively_both)
  then have "successively (<) idx"
    by (rule successively_mono) auto
  then have "sorted_wrt (<) idx"
    by (simp only: successively_less_int)
  then show ?thesis
    by (simp add: strict_sorted_iff)
qed

lemma indices_ascending_short: "length idx \<le> 1 \<Longrightarrow> indices_ascending idx"
proof -
  assume "length idx \<le> 1"
  then have "length (np_array idx) \<le> 1"
    by (simp add: np_array_def)
  then have "successively (<) (np_array idx)"
    by (cases "np_array idx" rule: remdups_adj.cases) simp_all
  then show ?thesis
    by (simp only: indices_ascending_successively)
qed

lemma DataSplit_init_int64:
  assumes "int64_values train" and "int64_values test"
  shows "DataSplit_init train test =
           (if strictly_ascending train \<and> strictly_ascending test
            then Inr \<lparr>train_indices = train, test_indices = test\<rparr>
            else Inl InvalidSplit)"
  using assms by (simp add: DataSplit_init_def indices_ascending_int64)

text \<open>
  Claim C3 asks that the constructor fail exactly when one of the two sequences is not
  strictly ascending. The sequence of the two integers \<open>2^63 - 1\<close> and \<open>2^63\<close> is
  strictly ascending, and the constructor fails on it with InvalidSplit: the array of
  the two is a float64 array whose elements are both \<open>2^63\<close>.
\<close>

theorem DataSplit_init_rejects_ascending_pair:
  "strictly_ascending [9223372036854775807, 9223372036854775808]
   \<and> np_array [9223372036854775807, 9223372036854775808]
       = [9223372036854775808, 9223372036854775808]
   \<and> DataSplit_init [9223372036854775807, 9223372036854775808] [] = Inl InvalidSplit"
  by (simp add: strictly_ascending_def split_init_defs float64_of_int_def)

text \<open>
  Claim C10. A DataSplit whose train and test sequences have length zero or one is
  constructed without error; and with an empty sequence on one side, a strictly
  ascending sequence of int64 values on the other side is accepted.
\<close>

theorem DataSplit_init_empty_singleton:
  "(length train \<le> 1 \<and> length test \<le> 1 \<longrightarrow>
      DataSplit_init train test = Inr \<lparr>train_indices = train, test_indices = test\<rparr>)
   \<and> (int64_values test \<and> strictly_ascending test \<longrightarrow>
      DataSplit_init [] test = Inr \<lparr>train_indices = [], test_indices = test\<rparr>)
   \<and> (int64_values train \<and> strictly_ascending train \<longrightarrow>
      DataSplit_init train [] = Inr \<lparr>train_indices = train, test_indices = []\<rparr>)"
proof -
  have empty: "indices_ascending []"
    by (rule indices_ascending_short) simp
  show ?thesis
    by (simp add: DataSplit_init_def indices_ascending_short indices_ascending_int64 empty)
qed

theorem DataSplit_init_empty_singleton_witness:
  "DataSplit_init [] [] = Inr \<lparr>train_indices = [], test_indices = []\<rparr>
   \<and> DataSplit_init [7] [] = Inr \<lparr>train_indices = [7], test_indices = []\<rparr>
   \<and> DataSplit_init [] [9223372036854775808]
       = Inr \<lparr>train_indices = [], test_indices = [9223372036854775808]\<rparr>
   \<and> DataSplit_init [] [0, 2] = Inr \<lparr>train_indices = [], test_indices = [0, 2]\<rparr>
   \<and> DataSplit_init [1, 3, 4] [] = Inr \<lparr>train_indices = [1, 3, 4], test_indices = []\<rparr>"
proof -
  have len0: "length ([] :: int list) \<le> 1 \<and> length ([] :: int list) \<le> 1"
    and len1: "length [7 :: int] \<le> 1 \<and> length ([] :: int list) \<le> 1"
    and len2: "length ([] :: int list) \<le> 1 \<and> length [9223372036854775808 :: int] \<le> 1"
    by simp_all
  have asc1: "int64_values [0, 2] \<and> strictly_ascending [0, 2]"
    and asc2: "int64_values [1, 3, 4] \<and> strictly_ascending [1, 3, 4]"
    by (simp_all add: strictly_ascending_def int64_values_def)
  note c1 = DataSplit_init_empty_singleton [THEN conjunct1, THEN mp]
  note c2 = DataSplit_init_empty_singleton [THEN conjunct2, THEN conjunct1, THEN mp]
  note c3 = DataSplit_init_empty_singleton [THEN conjunct2, THEN conjunct2, THEN mp]
  from c1 [OF len0] c1 [OF len1] c1 [OF len2] c2 [OF asc1] c3 [OF asc2] show ?thesis
    by (intro conjI)
qed

subsection \<open>The registry constructor and add\<close>

lemma shuffles_in_order_Cons2:
  "shuffles_in_order (a # b # shs) = (shuffle_key a < shuffle_key b \<and> shuffles_in_order (b # shs))"
  by (auto simp add: shuffles_in_order_def shuffle_key_def)

lemma shuffles_in_order_iff:
  "shuffles_in_order shs = sorted_wrt (<) (map shuffle_key shs)"
proof (induction shs rule: induct_list012)
  case 1
  show ?case by (simp add: shuffles_in_order_def)
next
  case (2 a)
  show ?case by (simp add: shuffles_in_order_def)
next
  case (3 a b shs)
  have "sorted_wrt (<) (map shuffle_key (a # b # shs))
        = (shuffle_key a < shuffle_key b \<and> sorted_wrt (<) (map shuffle_key (b # shs)))"
    by auto
  with 3 show ?case by (simp only: shuffles_in_order_Cons2)
qed

lemma init_Inr_iff:
  "TrainingDatasetMetadata_init cfg shs = Inr reg
     \<longleftrightarrow> sorted_wrt (<) (map shuffle_key shs) \<and> reg = \<lparr>project_config = cfg, shuffles = shs\<rparr>"
  by (auto simp: TrainingDatasetMetadata_init_def shuffles_in_order_iff)

lemma init_sorted:
  "sorted (map shuffle_key shs) \<Longrightarrow> distinct (map shuffle_key shs) \<Longrightarrow>
   TrainingDatasetMetadata_init cfg shs = Inr \<lparr>project_config = cfg, shuffles = shs\<rparr>"
  by (simp add: init_Inr_iff strict_sorted_iff)

lemma existing_iff:
  "index r \<in> set (map index (filter (\<lambda>s. train_fraction s = train_fraction r) shs))
     \<longleftrightarrow> (\<exists>s\<in>set shs. shuffle_key s = shuffle_key r)"
  by (force simp: shuffle_key_def image_iff)

lemma other_key_conv:
  "(\<lambda>s. index s \<noteq> index r \<or> train_fraction s \<noteq> train_fraction r)
     = (\<lambda>s. shuffle_key s \<noteq> shuffle_key r)"
  by (auto simp: shuffle_key_def)

lemma add_unfold:
  "add self r overwrite =
     (if (\<exists>s\<in>set (shuffles self). shuffle_key s = shuffle_key r) \<and> \<not> overwrite
      then Inl DuplicateShuffle
      else TrainingDatasetMetadata_init (project_config self)
             (sort_key shuffle_key
                (filter (\<lambda>s. shuffle_key s \<noteq> shuffle_key r) (shuffles self) @ [r])))"
  unfolding add_def Let_def existing_iff other_key_conv by simp

lemma replaced_sorted:
  assumes "sorted_wrt (<) (map shuffle_key shs)"
  shows "sorted_wrt (<) (map shuffle_key
           (sort_key shuffle_key (filter (\<lambda>s. shuffle_key s \<noteq> shuffle_key r) shs @ [r])))"
proof -
  let ?old = "filter (\<lambda>s. shuffle_key s \<noteq> shuffle_key r) shs"
  from assms have "distinct (map shuffle_key shs)"
    by (simp add: strict_sorted_iff)
  then have "distinct (map shuffle_key ?old)"
    by (simp add: distinct_map_filter)
  then have "distinct (map shuffle_key (?old @ [r]))"
    by auto
  moreover have "mset (map shuffle_key (sort_key shuffle_key (?old @ [r])))
                 = mset (map shuffle_key (?old @ [r]))"
    by simp
  ultimately have "distinct (map shuffle_key (sort_key shuffle_key (?old @ [r])))"
    by (metis mset_eq_imp_distinct_iff)
  then show ?thesis
    by (simp add: strict_sorted_iff)
qed

lemma add_Inr_sorted:
  "add reg r overwrite = Inr reg' \<Longrightarrow> sorted_wrt (<) (map shuffle_key (shuffles reg'))"
  by (auto simp: add_unfold init_Inr_iff split: if_splits)

lemma add_succeeds:
  assumes "sorted_wrt (<) (map shuffle_key (shuffles reg))"
    and "overwrite \<or> (\<forall>s\<in>set (shuffles reg). shuffle_key s \<noteq> shuffle_key r)"
  shows "add reg r overwrite =
           Inr \<lparr>project_config = project_config reg,
                shuffles = sort_key shuffle_key
                  (filter (\<lambda>s. shuffle_key s \<noteq> shuffle_key r) (shuffles reg) @ [r])\<rparr>"
  using assms replaced_sorted [OF assms(1), of r]
  by (auto simp: add_unfold init_Inr_iff)

text \<open>
  Claim C1. On a registry that the constructor accepted: when a record with the pair
  (train fraction, index) of the new record is present, add without overwrite fails
  with DuplicateShuffle and add with overwrite succeeds, and in its result the new
  record is the only one with that pair, next to the old records with other pairs;
  when no such record is present, add succeeds whatever the flag and its result holds
  the old records and the new one. Both results are sorted by the pair.
\<close>

theorem add_duplicate_overwrite:
  assumes "TrainingDatasetMetadata_init cfg shs = Inr reg"
  shows "((\<exists>s\<in>set (shuffles reg). shuffle_key s = shuffle_key r) \<longrightarrow>
            add reg r False = Inl DuplicateShuffle
            \<and> (\<exists>reg'. add reg r True = Inr reg'
                 \<and> set (shuffles reg')
                     = {s \<in> set (shuffles reg). shuffle_key s \<noteq> shuffle_key r} \<union> {r}
                 \<and> filter (\<lambda>s. shuffle_key s = shuffle_key r) (shuffles reg') = [r]
                 \<and> sorted_wrt (<) (map shuffle_key (shuffles reg'))))
       \<and> ((\<forall>s\<in>set (shuffles reg). shuffle_key s \<noteq> shuffle_key r) \<longrightarrow>
            (\<exists>reg'. add reg r overwrite = Inr reg'
                 \<and> set (shuffles reg') = set (shuffles reg) \<union> {r}
                 \<and> filter (\<lambda>s. shuffle_key s = shuffle_key r) (shuffles reg') = [r]
                 \<and> sorted_wrt (<) (map shuffle_key (shuffles reg'))))"
proof -
  let ?old = "filter (\<lambda>s. shuffle_key s \<noteq> shuffle_key r) (shuffles reg)"
  let ?new = "sort_key shuffle_key (?old @ [r])"
  from assms have valid: "sorted_wrt (<) (map shuffle_key (shuffles reg))"
    by (simp add: init_Inr_iff)
  have set_new: "set ?new = {s \<in> set (shuffles reg). shuffle_key s \<noteq> shuffle_key r} \<union> {r}"
    by auto
  have "filter (\<lambda>s. shuffle_key s = shuffle_key r) ?new
          = filter (\<lambda>s. shuffle_key s = shuffle_key r) (?old @ [r])"
    by (rule sort_key_stable)
  then have only_new: "filter (\<lambda>s. shuffle_key s = shuffle_key r) ?new = [r]"
    by (simp add: filter_empty_conv)
  have sorted_new: "sorted_wrt (<) (map shuffle_key ?new)"
    using valid by (rule replaced_sorted)
  have dup: "add reg r False = Inl DuplicateShuffle"
    if "\<exists>s\<in>set (shuffles reg). shuffle_key s = shuffle_key r"
    using that by (simp add: add_unfold)
  have over: "add reg r True = Inr \<lparr>project_config = project_config reg, shuffles = ?new\<rparr>"
    using valid by (simp add: add_succeeds)
  have fresh: "add reg r overwrite = Inr \<lparr>project_config = project_config reg, shuffles = ?new\<rparr>"
    if "\<forall>s\<in>set (shuffles reg). shuffle_key s \<noteq> shuffle_key r"
    using valid that by (simp add: add_succeeds)
  have all_old: "{s \<in> set (shuffles reg). shuffle_key s \<noteq> shuffle_key r} = set (shuffles reg)"
    if "\<forall>s\<in>set (shuffles reg). shuffle_key s \<noteq> shuffle_key r"
    using that by auto
  show ?thesis
  proof (intro conjI impI)
    assume "\<exists>s\<in>set (shuffles reg). shuffle_key s = shuffle_key r"
    then show "add reg r False = Inl DuplicateShuffle"
      by (rule dup)
  next
    show "\<exists>reg'. add reg r True = Inr reg'
            \<and> set (shuffles reg')
                = {s \<in> set (shuffles reg). shuffle_key s \<noteq> shuffle_key r} \<union> {r}
            \<and> filter (\<lambda>s. shuffle_key s = shuffle_key r) (shuffles reg') = [r]
            \<and> sorted_wrt (<) (map shuffle_key (shuffles reg'))"
      using over set_new only_new sorted_new by simp
  next
    assume none: "\<forall>s\<in>set (shuffles reg). shuffle_key s \<noteq> shuffle_key r"
    show "\<exists>reg'. add reg r overwrite = Inr reg'
            \<and> set (shuffles reg') = set (shuffles reg) \<union> {r}
            \<and> filter (\<lambda>s. shuffle_key s = shuffle_key r) (shuffles reg') = [r]
            \<and> sorted_wrt (<) (map shuffle_key (shuffles reg'))"
      using fresh [OF none] set_new only_new sorted_new all_old [OF none] by simp
  qed
qed

lemma demo_registry_init:
  "TrainingDatasetMetadata_init demo_cfg [demo_50_1, demo_60_1] = Inr demo_registry"
  by (simp add: TrainingDatasetMetadata_init_def shuffles_in_order_def demo_registry_def
      demo_50_1_def demo_60_1_def)

theorem add_duplicate_overwrite_witness:
  "TrainingDatasetMetadata_init demo_cfg [demo_50_1, demo_60_1] = Inr demo_registry
   \<and> shuffle_key demo_50_1_torch \<in> shuffle_key ` set (shuffles demo_registry)
   \<and> add demo_registry demo_50_1_torch False = Inl DuplicateShuffle
   \<and> (\<exists>reg'. add demo_registry demo_50_1_torch True = Inr reg'
        \<and> filter (\<lambda>s. shuffle_key s = shuffle_key demo_50_1_torch) (shuffles reg')
            = [demo_50_1_torch])
   \<and> shuffle_key demo_50_2 \<notin> shuffle_key ` set (shuffles demo_registry)
   \<and> (\<exists>reg'. add demo_registry demo_50_2 False = Inr reg'
        \<and> set (shuffles reg') = set (shuffles demo_registry) \<union> {demo_50_2})"
proof -
  have present: "shuffle_key demo_50_1_torch \<in> shuffle_key ` set (shuffles demo_registry)"
    by (simp add: demo_registry_def shuffle_key_def demo_50_1_def demo_50_1_torch_def)
  have same: "\<exists>s\<in>set (shuffles demo_registry). shuffle_key s = shuffle_key demo_50_1_torch"
    by (simp add: demo_registry_def shuffle_key_def demo_50_1_def demo_50_1_torch_def)
  have absent: "shuffle_key demo_50_2 \<notin> shuffle_key ` set (shuffles demo_registry)"
    by (simp add: demo_registry_def shuffle_key_def demo_50_1_def demo_60_1_def demo_50_2_def)
  have fresh: "\<forall>s\<in>set (shuffles demo_registry). shuffle_key s \<noteq> shuffle_key demo_50_2"
    by (simp add: demo_registry_def shuffle_key_def demo_50_1_def demo_60_1_def demo_50_2_def)
  note dup_case = add_duplicate_overwrite [OF demo_registry_init, of demo_50_1_torch,
      THEN conjunct1, THEN mp, OF same]
  note new_case = add_duplicate_overwrite [OF demo_registry_init, of demo_50_2 False,
      THEN conjunct2, THEN mp, OF fresh]
  from dup_case have dup: "add demo_registry demo_50_1_torch False = Inl DuplicateShuffle"
    by (rule conjunct1)
  from dup_case obtain reg1 where
    "add demo_registry demo_50_1_torch True = Inr reg1"
    "filter (\<lambda>s. shuffle_key s = shuffle_key demo_50_1_torch) (shuffles reg1) = [demo_50_1_torch]"
    by (elim conjE exE)
  then have over: "\<exists>reg'. add demo_registry demo_50_1_torch True = Inr reg'
        \<and> filter (\<lambda>s. shuffle_key s = shuffle_key demo_50_1_torch) (shuffles reg')
            = [demo_50_1_torch]"
    by (intro exI conjI)
  from new_case obtain reg2 where
    "add demo_registry demo_50_2 False = Inr reg2"
    "set (shuffles reg2) = set (shuffles demo_registry) \<union> {demo_50_2}"
    by (elim conjE exE)
  then have new: "\<exists>reg'. add demo_registry demo_50_2 False = Inr reg'
        \<and> set (shuffles reg') = set (shuffles demo_registry) \<union> {demo_50_2}"
    by (intro exI conjI)
  from demo_registry_init present dup over absent new show ?thesis
    by (intro conjI)
qed

lemma init_invariant:
  "TrainingDatasetMetadata_init cfg shs = Inr reg \<Longrightarrow> registry_invariant reg"
  by (auto simp: init_Inr_iff registry_invariant_def strict_sorted_iff)

lemma add_invariant: "add reg0 r overwrite = Inr reg \<Longrightarrow> registry_invariant reg"
  by (auto simp: add_unfold split: if_splits dest: init_invariant)

lemma load_invariant: "load ext fs cfg load_splits = Inr reg \<Longrightarrow> registry_invariant reg"
  by (auto simp: load_def split: option.splits sum.splits dest: init_invariant)

lemma create_invariant: "create ext fs cfg = Inr reg \<Longrightarrow> registry_invariant reg"
  by (auto simp: create_def Let_def split: sum.splits dest: init_invariant)

lemma add_all_invariant:
  "registry_invariant reg0 \<Longrightarrow> add_all reg0 calls = Inr reg \<Longrightarrow> registry_invariant reg"
proof (induction calls arbitrary: reg0)
  case Nil
  then show ?case by simp
next
  case (Cons call calls)
  obtain r overwrite where call: "call = (r, overwrite)"
    by (cases call)
  from Cons.prems(2) obtain reg1 where
    step: "add reg0 r overwrite = Inr reg1" and rest: "add_all reg1 calls = Inr reg"
    by (auto simp: call split: sum.splits)
  from step have "registry_invariant reg1"
    by (rule add_invariant)
  then show ?case
    using rest by (rule Cons.IH)
qed

text \<open>
  Claim C2. Whatever returns a registry (the constructor, add, load, create) returns
  one whose records are sorted by the pair (train fraction, index) with no pair twice,
  and a sequence of add calls that starts from such a registry ends in such a registry.
\<close>

theorem registry_sorted_unique:
  "(TrainingDatasetMetadata_init cfg shs = Inr reg1 \<longrightarrow> registry_invariant reg1)
   \<and> (add reg0 r overwrite = Inr reg2 \<longrightarrow> registry_invariant reg2)
   \<and> (load ext fs cfg load_splits = Inr reg3 \<longrightarrow> registry_invariant reg3)
   \<and> (create ext fs cfg = Inr reg4 \<longrightarrow> registry_invariant reg4)
   \<and> (registry_invariant reg0 \<and> add_all reg0 calls = Inr reg5 \<longrightarrow> registry_invariant reg5)"
  using init_invariant add_invariant load_invariant create_invariant add_all_invariant
  by blast

theorem registry_sorted_unique_witness:
  "TrainingDatasetMetadata_init demo_cfg [demo_50_1, demo_60_1] = Inr demo_registry
   \<and> registry_invariant demo_registry
   \<and> add demo_registry demo_50_2 False = Inr demo_added
   \<and> registry_invariant demo_added
   \<and> load demo_ext demo_fs_saved demo_cfg False = Inr demo_loaded
   \<and> registry_invariant demo_loaded
   \<and> create demo_ext demo_fs demo_cfg = Inr demo_created
   \<and> registry_invariant demo_created
   \<and> add_all demo_registry [(demo_50_2, False), (demo_50_1_torch, True)] = Inr demo_replaced
   \<and> registry_invariant demo_replaced"
proof -
  have i1: "registry_invariant demo_registry"
    using demo_registry_init
    by (rule registry_sorted_unique [THEN conjunct1, THEN mp])
  have i2: "registry_invariant demo_added"
    using demo_add
    by (rule registry_sorted_unique [THEN conjunct2, THEN conjunct1, THEN mp])
  have i3: "registry_invariant demo_loaded"
    using demo_load
    by (rule registry_sorted_unique [THEN conjunct2, THEN conjunct2, THEN conjunct1, THEN mp])
  have i4: "registry_invariant demo_created"
    using demo_create
    by (rule registry_sorted_unique
        [THEN conjunct2, THEN conjunct2, THEN conjunct2, THEN conjunct1, THEN mp])
  from i1 demo_add_all have
    "registry_invariant demo_registry
     \<and> add_all demo_registry [(demo_50_2, False), (demo_50_1_torch, True)] = Inr demo_replaced"
    by (rule conjI)
  then have i5: "registry_invariant demo_replaced"
    by (rule registry_sorted_unique
        [THEN conjunct2, THEN conjunct2, THEN conjunct2, THEN conjunct2, THEN mp])
  from demo_registry_init i1 demo_add i2 demo_load i3 demo_create i4 demo_add_all i5
  show ?thesis
    by (intro conjI)
qed

subsection \<open>load_split\<close>

lemma py_int_castable: "castable x \<Longrightarrow> py_int x = Inr (int_part x)"
proof (cases x)
  case (PyFloat q)
  have "(if q < 0 then \<lceil>q\<rceil> else \<lfloor>q\<rfloor>) = (if q < 0 then - 1 else 1) * \<lfloor>\<bar>q\<bar>\<rfloor>"
    by (simp add: ceiling_def)
  with PyFloat show ?thesis
    by (simp add: int_part_def)
qed (simp_all add: castable_def int_part_def)

lemma cast_all_castable: "list_all castable xs \<Longrightarrow> cast_all xs = Inr (map int_part xs)"
  by (induction xs) (simp_all add: py_int_castable)

lemma int64_values_sort: "int64_values (sort idx) = int64_values idx"
  by (simp add: int64_values_def list_all_iff)

lemma DataSplit_init_sort_repeated:
  assumes "\<not> (distinct train \<and> distinct test)"
  shows "DataSplit_init (sort train) (sort test) = Inl InvalidSplit"
proof -
  have "distinct idx" if "indices_ascending (sort idx)" for idx
  proof -
    have "distinct (sort idx)"
      using _ that by (rule sorted_accepted_distinct) simp
    then show ?thesis
      by simp
  qed
  with assms have "\<not> indices_ascending (sort train) \<or> \<not> indices_ascending (sort test)"
    by blast
  then show ?thesis
    by (auto simp: DataSplit_init_def)
qed

lemma DataSplit_init_sort_distinct:
  assumes "distinct train" "distinct test" "int64_values train" "int64_values test"
  shows "DataSplit_init (sort train) (sort test)
           = Inr \<lparr>train_indices = sort train, test_indices = sort test\<rparr>"
proof -
  have "strictly_ascending (sort idx)" if "distinct idx" for idx
    using that by (simp add: strictly_ascending_def strict_sorted_iff)
  with assms show ?thesis
    by (simp add: DataSplit_init_int64 int64_values_sort)
qed

text \<open>
  Claim C4, as the code has it. When the documentation file of the record's pair is
  absent, load_split fails with SplitFileMissing, whose message ends with the advice to
  delete the shuffle from metadata.yaml as well. When the file holds a documentation
  tuple whose numbers can all be cast to integers, the train and test indices are cast
  and sorted and nothing is removed from them: with no integer repeated, all of them
  int64 values, the result is the record with that split and every other field
  unchanged; with an integer repeated the split constructor fails with InvalidSplit.
\<close>

theorem load_split_result:
  "(map_of (trainset_files fs)
      (get_metadata_filename ext cfg (train_fraction self) (index self)) = None \<longrightarrow>
      load_split ext fs cfg self = Inl SplitFileMissing
      \<and> suffix ''If you deleted the shuffle, you also need to delete the shuffle from metadata.yaml or recreate the metadata.yaml file.''
          (message SplitFileMissing))
   \<and> (map_of (trainset_files fs)
        (get_metadata_filename ext cfg (train_fraction self) (index self))
        = Some (ShuffleDoc train_idx test_idx fraction)
      \<and> list_all castable train_idx \<and> list_all castable test_idx \<longrightarrow>
      (distinct (map int_part train_idx) \<and> distinct (map int_part test_idx)
       \<and> int64_values (map int_part train_idx) \<and> int64_values (map int_part test_idx) \<longrightarrow>
         load_split ext fs cfg self =
           Inr (self\<lparr>split := Some \<lparr>train_indices = sort (map int_part train_idx),
                                      test_indices = sort (map int_part test_idx)\<rparr>\<rparr>))
      \<and> (\<not> (distinct (map int_part train_idx) \<and> distinct (map int_part test_idx)) \<longrightarrow>
         load_split ext fs cfg self = Inl InvalidSplit))"
proof -
  have msg: "suffix ''If you deleted the shuffle, you also need to delete the shuffle from metadata.yaml or recreate the metadata.yaml file.''
          (message SplitFileMissing)"
    by (simp add: SplitFileMissing_def suffix_to_prefix)
  have missing: "load_split ext fs cfg self = Inl SplitFileMissing"
    if "map_of (trainset_files fs)
          (get_metadata_filename ext cfg (train_fraction self) (index self)) = None"
    using that by (simp add: load_split_def)
  have present: "load_split ext fs cfg self =
      (case DataSplit_init (sort (map int_part train_idx)) (sort (map int_part test_idx)) of
         Inl e \<Rightarrow> Inl e
       | Inr sp \<Rightarrow> Inr (self\<lparr>split := Some sp\<rparr>))"
    if "map_of (trainset_files fs)
          (get_metadata_filename ext cfg (train_fraction self) (index self))
          = Some (ShuffleDoc train_idx test_idx fraction)"
      "list_all castable train_idx" "list_all castable test_idx"
    using that by (simp add: load_split_def cast_all_castable split: sum.splits)
  show ?thesis
    using msg missing present
    by (auto simp: DataSplit_init_sort_repeated DataSplit_init_sort_distinct)
qed

theorem load_split_result_witness:
  "load_split demo_ext demo_fs demo_cfg demo_50_2 = Inl SplitFileMissing
   \<and> map_of (trainset_files demo_fs)
        (get_metadata_filename demo_ext demo_cfg (train_fraction demo_50_1_unloaded)
           (index demo_50_1_unloaded))
       = Some (ShuffleDoc [PyFloat 4, PyInt 1, PyFloat (7 / 2)] [PyInt 0, PyFloat (5 / 2)] (1 / 2))
   \<and> load_split demo_ext demo_fs demo_cfg demo_50_1_unloaded = Inr demo_50_1
   \<and> load_split demo_ext demo_fs_repeated demo_cfg demo_50_1_unloaded = Inl InvalidSplit"
proof -
  let ?train = "[PyFloat 4, PyInt 1, PyFloat (7 / 2)]"
  let ?test = "[PyInt 0, PyFloat (5 / 2)]"
  let ?train_rep = "[PyInt 3, PyInt 1, PyInt 3]"
  let ?test_rep = "[PyInt 0, PyInt 2]"
  have no_file: "map_of (trainset_files demo_fs)
      (get_metadata_filename demo_ext demo_cfg (train_fraction demo_50_2) (index demo_50_2)) = None"
    by (simp add: demo_defs)
  have good_file: "map_of (trainset_files demo_fs)
      (get_metadata_filename demo_ext demo_cfg (train_fraction demo_50_1_unloaded)
         (index demo_50_1_unloaded)) = Some (ShuffleDoc ?train ?test (1 / 2))"
    by (simp add: demo_defs)
  have bad_file: "map_of (trainset_files demo_fs_repeated)
      (get_metadata_filename demo_ext demo_cfg (train_fraction demo_50_1_unloaded)
         (index demo_50_1_unloaded)) = Some (ShuffleDoc ?train_rep ?test_rep (1 / 2))"
    by (simp add: demo_defs)
  have casts: "list_all castable ?train \<and> list_all castable ?test"
    and casts_rep: "list_all castable ?train_rep \<and> list_all castable ?test_rep"
    by (simp_all add: castable_def)
  have ints: "map int_part ?train = [4, 1, 3]" "map int_part ?test = [0, 2]"
    "map int_part ?train_rep = [3, 1, 3]" "map int_part ?test_rep = [0, 2]"
    by (simp_all add: int_part_def)
  have good: "distinct (map int_part ?train) \<and> distinct (map int_part ?test)
       \<and> int64_values (map int_part ?train) \<and> int64_values (map int_part ?test)"
    unfolding ints by (simp add: int64_values_def)
  have bad: "\<not> (distinct (map int_part ?train_rep) \<and> distinct (map int_part ?test_rep))"
    unfolding ints by simp
  have sorted_good: "demo_50_1_unloaded\<lparr>split := Some \<lparr>train_indices = sort (map int_part ?train),
      test_indices = sort (map int_part ?test)\<rparr>\<rparr> = demo_50_1"
    unfolding ints by (simp add: demo_defs)
  have "load_split demo_ext demo_fs demo_cfg demo_50_2 = Inl SplitFileMissing
        \<and> suffix ''If you deleted the shuffle, you also need to delete the shuffle from metadata.yaml or recreate the metadata.yaml file.''
            (message SplitFileMissing)"
    using no_file by (rule load_split_result [THEN conjunct1, THEN mp])
  then have missing: "load_split demo_ext demo_fs demo_cfg demo_50_2 = Inl SplitFileMissing"
    by (rule conjunct1)
  from good_file casts have pre_good: "map_of (trainset_files demo_fs)
      (get_metadata_filename demo_ext demo_cfg (train_fraction demo_50_1_unloaded)
         (index demo_50_1_unloaded)) = Some (ShuffleDoc ?train ?test (1 / 2))
      \<and> list_all castable ?train \<and> list_all castable ?test"
    by (rule conjI)
  from bad_file casts_rep have pre_bad: "map_of (trainset_files demo_fs_repeated)
      (get_metadata_filename demo_ext demo_cfg (train_fraction demo_50_1_unloaded)
         (index demo_50_1_unloaded)) = Some (ShuffleDoc ?train_rep ?test_rep (1 / 2))
      \<and> list_all castable ?train_rep \<and> list_all castable ?test_rep"
    by (rule conjI)
  have "load_split demo_ext demo_fs demo_cfg demo_50_1_unloaded =
          Inr (demo_50_1_unloaded\<lparr>split := Some \<lparr>train_indices = sort (map int_part ?train),
                 test_indices = sort (map int_part ?test)\<rparr>\<rparr>)"
    using good
    by (rule load_split_result [THEN conjunct2, THEN mp, OF pre_good, THEN conjunct1, THEN mp])
  then have loaded: "load_split demo_ext demo_fs demo_cfg demo_50_1_unloaded = Inr demo_50_1"
    by (simp only: sorted_good)
  have repeated: "load_split demo_ext demo_fs_repeated demo_cfg demo_50_1_unloaded = Inl InvalidSplit"
    using bad
    by (rule load_split_result [THEN conjunct2, THEN mp, OF pre_bad, THEN conjunct2, THEN mp])
  from missing good_file loaded repeated show ?thesis
    by (intro conjI)
qed

text \<open>
  The claim as the specification words it has load_split remove repeated indices. On
  a documentation file whose train indices are 3, 1, 3 the record with the indices
  1, 3 is not what comes back: the call fails.
\<close>

theorem load_split_keeps_duplicates:
  "map_of (trainset_files demo_fs_repeated)
      (get_metadata_filename demo_ext demo_cfg (train_fraction demo_50_1_unloaded)
         (index demo_50_1_unloaded))
     = Some (ShuffleDoc [PyInt 3, PyInt 1, PyInt 3] [PyInt 0, PyInt 2] (1 / 2))
   \<and> load_split demo_ext demo_fs_repeated demo_cfg demo_50_1_unloaded = Inl InvalidSplit
   \<and> load_split demo_ext demo_fs_repeated demo_cfg demo_50_1_unloaded
         \<noteq> Inr (demo_50_1_unloaded\<lparr>split := Some \<lparr>train_indices = [1, 3],
                                                      test_indices = [0, 2]\<rparr>\<rparr>)"
  by (simp add: load_split_def demo_defs split_init_defs)

lemma load_split_on_disk:
  assumes "split_on_disk ext fs cfg s = Some sp"
  shows "load_split ext fs cfg s = Inr (s\<lparr>split := Some sp\<rparr>)"
proof -
  from assms obtain train_idx test_idx fraction where
    doc: "map_of (trainset_files fs) (get_metadata_filename ext cfg (train_fraction s) (index s))
          = Some (ShuffleDoc train_idx test_idx fraction)"
    and wf: "well_formed_indices train_idx" "well_formed_indices test_idx"
    and sp: "sp = \<lparr>train_indices = normalized_indices train_idx,
                   test_indices = normalized_indices test_idx\<rparr>"
    by (auto simp: split_on_disk_def split: option.splits file_content.splits if_splits)
  from wf have casts: "cast_all train_idx = Inr (map int_part train_idx)"
    "cast_all test_idx = Inr (map int_part test_idx)"
    by (simp_all add: well_formed_indices_def cast_all_castable)
  from wf have "DataSplit_init (sort (map int_part train_idx)) (sort (map int_part test_idx))
      = Inr \<lparr>train_indices = sort (map int_part train_idx),
             test_indices = sort (map int_part test_idx)\<rparr>"
    by (intro DataSplit_init_sort_distinct) (simp_all add: well_formed_indices_def)
  with doc casts sp show ?thesis
    by (simp add: load_split_def normalized_indices_def)
qed

subsection \<open>Interning of splits in save\<close>

lemma update_absent: "k \<notin> fst ` set ps \<Longrightarrow> AList.update k v ps = ps @ [(k, v)]"
  by (induction ps) auto

lemma intern_split_present:
  "map_of ds sp = Some i \<Longrightarrow> intern_split sp ds = (i, ds)"
  by (simp add: intern_split_def)

lemma intern_split_absent:
  assumes "sp \<notin> fst ` set ds"
  shows "intern_split sp ds = (Suc (length ds), ds @ [(sp, Suc (length ds))])"
proof -
  from assms have "map_of ds sp = None"
    by (simp add: map_of_eq_None_iff)
  moreover from assms have "AList.update sp v ds = ds @ [(sp, v)]" for v
    by (rule update_absent)
  ultimately show ?thesis
    by (simp add: intern_split_def)
qed

lemma intern_split_cases:
  obtains i where "map_of ds sp = Some i" "intern_split sp ds = (i, ds)"
  | "sp \<notin> fst ` set ds" "map_of ds sp = None"
    "intern_split sp ds = (Suc (length ds), ds @ [(sp, Suc (length ds))])"
proof (cases "map_of ds sp")
  case None
  then have "sp \<notin> fst ` set ds"
    by (simp add: map_of_eq_None_iff)
  with None that(2) show ?thesis
    by (simp add: intern_split_absent)
next
  case (Some i)
  with that(1) show ?thesis
    by (simp add: intern_split_present)
qed

lemma numbered_snoc:
  "numbered ds \<Longrightarrow> sp \<notin> fst ` set ds \<Longrightarrow> numbered (ds @ [(sp, Suc (length ds))])"
  by (auto simp: numbered_def)

lemma intern_split_numbered: "numbered ds \<Longrightarrow> numbered (snd (intern_split sp ds))"
  by (rule intern_split_cases [of ds sp]) (simp_all add: numbered_snoc)

lemma intern_split_lookup:
  "map_of (snd (intern_split sp ds)) sp = Some (fst (intern_split sp ds))"
  by (rule intern_split_cases [of ds sp]) (simp_all add: map_add_Some_iff)

lemma intern_split_keeps:
  "map_of ds k = Some i \<Longrightarrow> map_of (snd (intern_split sp ds)) k = Some i"
  by (rule intern_split_cases [of ds sp]) (simp_all add: map_add_Some_iff)

lemma intern_split_keys:
  "fst ` set (snd (intern_split sp ds)) = insert sp (fst ` set ds)"
proof (rule intern_split_cases [of ds sp])
  fix i
  assume "map_of ds sp = Some i" and eq: "intern_split sp ds = (i, ds)"
  then have "sp \<in> fst ` set ds"
    by (metis map_of_eq_None_iff option.distinct(1))
  with eq show ?thesis
    by auto
next
  assume "intern_split sp ds = (Suc (length ds), ds @ [(sp, Suc (length ds))])"
  then show ?thesis
    by simp
qed

lemma intern_split_length:
  "length (snd (intern_split sp ds)) = (if sp \<in> fst ` set ds then length ds else Suc (length ds))"
proof (rule intern_split_cases [of ds sp])
  fix i
  assume "map_of ds sp = Some i" and eq: "intern_split sp ds = (i, ds)"
  then have "sp \<in> fst ` set ds"
    by (metis map_of_eq_None_iff option.distinct(1))
  with eq show ?thesis
    by simp
next
  assume "sp \<notin> fst ` set ds"
    and "intern_split sp ds = (Suc (length ds), ds @ [(sp, Suc (length ds))])"
  then show ?thesis
    by simp
qed

text \<open>The dictionary after interning a sequence of values one after the other.\<close>

lemma intern_all_numbered:
  "numbered ds \<Longrightarrow> numbered (fold (\<lambda>sp d. snd (intern_split sp d)) sps ds)"
  by (induction sps arbitrary: ds) (simp_all add: intern_split_numbered)

lemma intern_all_keeps:
  "map_of ds k = Some i \<Longrightarrow> map_of (fold (\<lambda>sp d. snd (intern_split sp d)) sps ds) k = Some i"
  by (induction sps arbitrary: ds) (simp_all add: intern_split_keeps)

lemma intern_all_keys:
  "fst ` set (fold (\<lambda>sp d. snd (intern_split sp d)) sps ds) = set sps \<union> fst ` set ds"
  by (induction sps arbitrary: ds) (simp_all add: intern_split_keys)

lemma numbered_inj:
  assumes "numbered ds" and "map_of ds a = Some i" and "map_of ds b = Some i"
  shows "a = b"
proof -
  from assms(1) have d: "distinct (map fst ds)" and n: "map snd ds = [1..<Suc (length ds)]"
    by (simp_all add: numbered_def)
  from n have "distinct (map snd ds)"
    by simp
  moreover from assms(2,3) have "(a, i) \<in> set ds" "(b, i) \<in> set ds"
    by (auto dest: map_of_SomeD)
  ultimately show ?thesis
    by (metis distinct_map inj_onD snd_conv fst_conv)
qed

lemma intern_all_first_encounter:
  assumes "sp \<in> set sps" and "sp \<notin> fst ` set ds"
  shows "map_of (fold (\<lambda>sp d. snd (intern_split sp d)) sps ds) sp
           = Some (length ds + Suc (card (set (takeWhile (\<lambda>x. x \<noteq> sp) sps) - fst ` set ds)))"
  using assms
proof (induction sps arbitrary: ds)
  case Nil
  then show ?case by simp
next
  case (Cons x sps)
  let ?ds1 = "snd (intern_split x ds)"
  show ?case
  proof (cases "x = sp")
    case True
    from Cons.prems(2) have "intern_split sp ds = (Suc (length ds), ds @ [(sp, Suc (length ds))])"
      by (rule intern_split_absent)
    then have "map_of (snd (intern_split sp ds)) sp = Some (Suc (length ds))"
      using intern_split_lookup [of sp ds] by simp
    then have "map_of (fold (\<lambda>sp d. snd (intern_split sp d)) sps (snd (intern_split sp ds))) sp
                 = Some (Suc (length ds))"
      by (rule intern_all_keeps)
    with True show ?thesis
      by simp
  next
    case False
    with Cons.prems have in_rest: "sp \<in> set sps" and fresh: "sp \<notin> fst ` set ?ds1"
      by (simp_all add: intern_split_keys)
    let ?T = "set (takeWhile (\<lambda>x. x \<noteq> sp) sps)"
    have IH: "map_of (fold (\<lambda>sp d. snd (intern_split sp d)) sps ?ds1) sp
                = Some (length ?ds1 + Suc (card (?T - fst ` set ?ds1)))"
      using in_rest fresh by (rule Cons.IH)
    have "length ?ds1 + card (?T - fst ` set ?ds1)
            = length ds + card (insert x ?T - fst ` set ds)"
    proof (cases "x \<in> fst ` set ds")
      case True
      then have "insert x ?T - fst ` set ds = ?T - fst ` set ds"
        by auto
      with True show ?thesis
        by (simp add: intern_split_length intern_split_keys insert_absorb)
    next
      case False
      have "insert x ?T - fst ` set ds = insert x (?T - insert x (fst ` set ds))"
        using False by auto
      moreover have "x \<notin> ?T - insert x (fst ` set ds)"
        by simp
      moreover have "finite (?T - insert x (fst ` set ds))"
        by simp
      ultimately have "card (insert x ?T - fst ` set ds) = Suc (card (?T - insert x (fst ` set ds)))"
        by (metis card_insert_disjoint)
      with False show ?thesis
        by (simp add: intern_split_length intern_split_keys)
    qed
    with IH False show ?thesis
      by simp
  qed
qed

lemma save_loop_result:
  assumes "list_all2 (\<lambda>s s'. with_split ext fs cfg s = Inr s') shs ls"
  shows "save_loop ext fs cfg shs metadata ds =
           Inr (fold (\<lambda>s. AList.update (name s)
                       (yaml_of s (the (map_of
                          (fold (\<lambda>sp d. snd (intern_split sp d)) (map split ls) ds) (split s)))))
                  ls metadata,
                fold (\<lambda>sp d. snd (intern_split sp d)) (map split ls) ds)"
  using assms
proof (induction shs ls arbitrary: metadata ds rule: list_all2_induct)
  case Nil
  show ?case by simp
next
  case (Cons s shs s' ls)
  let ?ds1 = "snd (intern_split (split s') ds)"
  let ?final = "fold (\<lambda>sp d. snd (intern_split sp d)) (map split ls) ?ds1"
  have "map_of ?ds1 (split s') = Some (fst (intern_split (split s') ds))"
    by (rule intern_split_lookup)
  then have "map_of ?final (split s') = Some (fst (intern_split (split s') ds))"
    by (rule intern_all_keeps)
  then have id: "fst (intern_split (split s') ds) = the (map_of ?final (split s'))"
    by simp
  show ?case
    using Cons.hyps(1) by (simp add: Cons.IH id)
qed

lemma fold_update_distinct:
  assumes "distinct (map f xs)" and "set (map f xs) \<inter> fst ` set al = {}"
  shows "fold (\<lambda>x. AList.update (f x) (g x)) xs al = al @ map (\<lambda>x. (f x, g x)) xs"
  using assms
proof (induction xs arbitrary: al)
  case Nil
  show ?case by simp
next
  case (Cons x xs)
  from Cons.prems(2) have "f x \<notin> fst ` set al"
    by auto
  then have step: "AList.update (f x) (g x) al = al @ [(f x, g x)]"
    by (rule update_absent)
  from Cons.prems have "distinct (map f xs)"
    and "set (map f xs) \<inter> fst ` set (al @ [(f x, g x)]) = {}"
    by auto
  then have "fold (\<lambda>x. AList.update (f x) (g x)) xs (al @ [(f x, g x)])
               = (al @ [(f x, g x)]) @ map (\<lambda>x. (f x, g x)) xs"
    by (rule Cons.IH)
  with step show ?case
    by simp
qed

lemma first_id_Some: "first_id (map Some xs) (Some x) = first_id xs x"
proof -
  have "takeWhile (\<lambda>y. y \<noteq> Some x) (map Some xs) = map Some (takeWhile (\<lambda>y. y \<noteq> x) xs)"
    by (induction xs) simp_all
  then have "set (takeWhile (\<lambda>y. y \<noteq> Some x) (map Some xs))
               = Some ` set (takeWhile (\<lambda>y. y \<noteq> x) xs)"
    by simp
  then show ?thesis
    by (simp add: first_id_def card_image)
qed

lemma interned_first_id:
  assumes "x \<in> set xs"
  shows "map_of (fold (\<lambda>sp d. snd (intern_split sp d)) xs []) x = Some (first_id xs x)"
  using intern_all_first_encounter [OF assms, of "[]"] by (simp add: first_id_def)

lemma first_id_inj:
  assumes "x \<in> set xs" and "y \<in> set xs" and "first_id xs x = first_id xs y"
  shows "x = y"
proof -
  let ?ds = "fold (\<lambda>sp d. snd (intern_split sp d)) xs []"
  have "numbered ?ds"
    by (rule intern_all_numbered) (simp add: numbered_def)
  moreover from assms(1) have "map_of ?ds x = Some (first_id xs x)"
    by (rule interned_first_id)
  moreover from assms(2,3) have "map_of ?ds y = Some (first_id xs x)"
    by (simp add: interned_first_id)
  ultimately show ?thesis
    by (rule numbered_inj)
qed

lemma with_split_effective:
  assumes "effective_split ext fs cfg s = Some sp"
  shows "with_split ext fs cfg s = Inr (s\<lparr>split := Some sp\<rparr>)"
proof (cases "split s")
  case None
  with assms have "split_on_disk ext fs cfg s = Some sp"
    by (simp add: effective_split_def)
  then have "load_split ext fs cfg s = Inr (s\<lparr>split := Some sp\<rparr>)"
    by (rule load_split_on_disk)
  with None show ?thesis
    by (simp add: with_split_def)
next
  case (Some sp')
  with assms have "sp' = sp"
    by (simp add: effective_split_def)
  with Some have "s\<lparr>split := Some sp\<rparr> = s"
    by simp
  with Some show ?thesis
    by (simp add: with_split_def)
qed

lemma effective_loaded:
  assumes "map (effective_split ext fs cfg) shs = map Some sps"
  shows "list_all2 (\<lambda>s s'. with_split ext fs cfg s = Inr s') shs
           (map (\<lambda>(s, sp). s\<lparr>split := Some sp\<rparr>) (zip shs sps))"
  using assms
proof (induction shs arbitrary: sps)
  case Nil
  then show ?case by simp
next
  case (Cons s shs)
  then obtain sp rest where sps: "sps = sp # rest"
    by (cases sps) auto
  with Cons.prems have "effective_split ext fs cfg s = Some sp"
    and "map (effective_split ext fs cfg) shs = map Some rest"
    by simp_all
  then show ?case
    using Cons.IH [of rest] by (simp add: sps with_split_effective)
qed

lemma save_effective:
  assumes "map (effective_split ext fs (project_config reg)) (shuffles reg) = map Some sps"
  shows "save ext fs reg =
           Inr (fs\<lparr>metadata_file := Some
             (dict_of (map (\<lambda>(s, sp). registry_entry s (first_id sps sp))
                         (zip (shuffles reg) sps)))\<rparr>)"
proof -
  let ?shs = "shuffles reg"
  let ?ls = "map (\<lambda>(s, sp). s\<lparr>split := Some sp\<rparr>) (zip ?shs sps)"
  let ?ds = "fold (\<lambda>sp d. snd (intern_split sp d)) (map split ?ls) []"
  from assms have len: "length sps = length ?shs"
    by (metis length_map)
  have "map split (map (\<lambda>(s, sp). s\<lparr>split := Some sp\<rparr>) (zip shs sps)) = map Some sps"
    if "length sps = length shs" for shs :: "ShuffleMetadata list"
    using that by (induction sps shs rule: list_induct2) simp_all
  from this [OF len] have splits: "map split ?ls = map Some sps" .
  have loaded: "list_all2 (\<lambda>s s'. with_split ext fs (project_config reg) s = Inr s') ?shs ?ls"
    using assms by (rule effective_loaded)
  define ident where "ident = (\<lambda>x. the (map_of ?ds x))"
  have id: "ident (Some sp) = first_id sps sp" if "sp \<in> set sps" for sp
  proof -
    from that
    have "map_of (fold (\<lambda>sp d. snd (intern_split sp d)) (map Some sps) []) (Some sp)
                 = Some (first_id (map Some sps) (Some sp))"
      by (intro interned_first_id) simp
    then show ?thesis
      unfolding ident_def splits by (simp add: first_id_Some)
  qed
  have step: "fold (\<lambda>s. AList.update (name s) (yaml_of s (ident (split s))))
            (map (\<lambda>(s, sp). s\<lparr>split := Some sp\<rparr>) ps) md
          = fold (\<lambda>(k, v). AList.update k v)
              (map (\<lambda>(s, sp). registry_entry s (first_id sps sp)) ps) md"
    if "snd ` set ps \<subseteq> set sps" for ps :: "(ShuffleMetadata \<times> DataSplit) list" and md
    using that
  proof (induction ps arbitrary: md)
    case Nil
    show ?case by simp
  next
    case (Cons p ps)
    obtain s sp where p: "p = (s, sp)"
      by (cases p)
    with Cons.prems have "sp \<in> set sps"
      by simp
    then have "ident (Some sp) = first_id sps sp"
      by (rule id)
    then have "yaml_of (s\<lparr>split := Some sp\<rparr>) (ident (Some sp))
                 = snd (registry_entry s (first_id sps sp))"
      by (cases "engine s") (simp_all add: yaml_of_def registry_entry_def)
    moreover have "name s = fst (registry_entry s (first_id sps sp))"
      by (simp add: registry_entry_def)
    moreover from Cons.prems have "snd ` set ps \<subseteq> set sps"
      by simp
    ultimately show ?case
      using Cons.IH [of "AList.update (name s) (snd (registry_entry s (first_id sps sp))) md"]
      by (simp add: p case_prod_unfold)
  qed
  have "snd ` set (zip ?shs sps) \<subseteq> set sps"
    by (auto dest: set_zip_rightD)
  then have "fold (\<lambda>s. AList.update (name s) (yaml_of s (ident (split s)))) ?ls []
          = dict_of (map (\<lambda>(s, sp). registry_entry s (first_id sps sp)) (zip ?shs sps))"
    unfolding dict_of_def by (rule step)
  then have "fold (\<lambda>s. AList.update (name s) (yaml_of s (the (map_of ?ds (split s))))) ?ls []
          = dict_of (map (\<lambda>(s, sp). registry_entry s (first_id sps sp)) (zip ?shs sps))"
    unfolding ident_def .
  with save_loop_result [OF loaded, of "[]" "[]"] show ?thesis
    by (simp add: save_def)
qed

lemma dict_of_distinct: "distinct (map fst kvs) \<Longrightarrow> dict_of kvs = kvs"
proof -
  assume "distinct (map fst kvs)"
  then have "fold (\<lambda>x. AList.update (fst x) (snd x)) kvs [] = [] @ map (\<lambda>x. (fst x, snd x)) kvs"
    by (intro fold_update_distinct) simp_all
  then show ?thesis
    by (simp add: dict_of_def case_prod_unfold)
qed

lemma entries_names:
  "length sps = length shs \<Longrightarrow>
     map fst (map (\<lambda>(s, sp). registry_entry s (f sp)) (zip shs sps)) = map name shs"
  by (induction sps shs rule: list_induct2) (simp_all add: registry_entry_def)

text \<open>
  Claim C5: \<^verbatim>\<open>save\<close> interns the splits and writes an id for each record. Let every record
  of the registry have a split, its own or else the one of its documentation file, and
  let \<open>sps\<close> list these splits in the order of the records. Then \<^verbatim>\<open>save\<close> succeeds and
  leaves every file but \<^verbatim>\<open>metadata.yaml\<close> as it was; \<^verbatim>\<open>metadata.yaml\<close> holds, under the name of
  each record, its train fraction, its index, its engine and as split id one more than
  the number of different splits before the first occurrence of its split, so that the
  ids are 1, 2, ... in first-encounter order; with pairwise different names the file is
  exactly the list of these entries. Two records are given the same id exactly when
  their splits are equal, and the ids are the numbers from 1 to the number of different
  splits.
\<close>

theorem save_interns_splits:
  assumes "map (effective_split ext fs (project_config reg)) (shuffles reg) = map Some sps"
  shows "save ext fs reg =
           Inr (fs\<lparr>metadata_file := Some
             (dict_of (map (\<lambda>(s, sp). registry_entry s (first_id sps sp))
                         (zip (shuffles reg) sps)))\<rparr>)
         \<and> (distinct (map name (shuffles reg)) \<longrightarrow>
              save ext fs reg =
                Inr (fs\<lparr>metadata_file := Some
                  (map (\<lambda>(s, sp). registry_entry s (first_id sps sp))
                     (zip (shuffles reg) sps))\<rparr>))
         \<and> (\<forall>x \<in> set sps. \<forall>y \<in> set sps. (first_id sps x = first_id sps y) = (x = y))
         \<and> first_id sps ` set sps = {1..card (set sps)}"
proof (intro conjI impI ballI)
  let ?entries = "map (\<lambda>(s, sp). registry_entry s (first_id sps sp)) (zip (shuffles reg) sps)"
  show saved: "save ext fs reg = Inr (fs\<lparr>metadata_file := Some (dict_of ?entries)\<rparr>)"
    using assms by (rule save_effective)
  show "save ext fs reg = Inr (fs\<lparr>metadata_file := Some ?entries\<rparr>)"
    if "distinct (map name (shuffles reg))"
  proof -
    from assms have "length sps = length (shuffles reg)"
      by (metis length_map)
    then have "map fst ?entries = map name (shuffles reg)"
      by (rule entries_names)
    with that have "dict_of ?entries = ?entries"
      by (intro dict_of_distinct) simp
    with saved show ?thesis
      by simp
  qed
  show "(first_id sps x = first_id sps y) = (x = y)" if "x \<in> set sps" "y \<in> set sps" for x y
    using that by (auto dest: first_id_inj)
  show "first_id sps ` set sps = {1..card (set sps)}"
  proof (rule card_subset_eq)
    show "finite {1..card (set sps)}"
      by simp
    show "first_id sps ` set sps \<subseteq> {1..card (set sps)}"
    proof
      fix n
      assume "n \<in> first_id sps ` set sps"
      then obtain x where x: "x \<in> set sps" and n: "n = first_id sps x"
        by auto
      have "set (takeWhile (\<lambda>y. y \<noteq> x) sps) \<subseteq> set sps - {x}"
        by (auto dest: set_takeWhileD)
      then have "card (set (takeWhile (\<lambda>y. y \<noteq> x) sps)) \<le> card (set sps - {x})"
        by (intro card_mono) simp_all
      also from x have "\<dots> < card (set sps)"
        by (intro psubset_card_mono) auto
      finally show "n \<in> {1..card (set sps)}"
        by (simp add: n first_id_def)
    qed
    have "inj_on (first_id sps) (set sps)"
      by (rule inj_onI) (rule first_id_inj)
    then show "card (first_id sps ` set sps) = card {1..card (set sps)}"
      by (simp add: card_image)
  qed
qed

text \<open>
  The theorem at the small project with shuffle 2 added and shuffle 1 at one half not
  yet loaded: the split of that record is read from its documentation file, it is the
  split of shuffle 2, and the file written gives both the id 1 and the third record the
  id 2.
\<close>

theorem save_interns_splits_witness:
  "split (shuffles demo_mixed ! 0) = None
   \<and> map (effective_split demo_ext demo_fs (project_config demo_mixed)) (shuffles demo_mixed)
       = map Some [\<lparr>train_indices = [1, 3, 4], test_indices = [0, 2]\<rparr>,
                   \<lparr>train_indices = [1, 3, 4], test_indices = [0, 2]\<rparr>,
                   \<lparr>train_indices = [0, 1, 2], test_indices = [3, 4]\<rparr>]
   \<and> save demo_ext demo_fs demo_mixed =
       Inr (demo_fs\<lparr>metadata_file := Some
         [(''demoJun17-trainset50shuffle1'',
           \<lparr>yaml_train_fraction = 1 / 2, yaml_index = 1, yaml_split = 1,
            yaml_engine = ''tensorflow''\<rparr>),
          (''demoJun17-trainset50shuffle2'',
           \<lparr>yaml_train_fraction = 1 / 2, yaml_index = 2, yaml_split = 1,
            yaml_engine = ''pytorch''\<rparr>),
          (''demoJun17-trainset60shuffle1'',
           \<lparr>yaml_train_fraction = 3 / 5, yaml_index = 1, yaml_split = 2,
            yaml_engine = ''pytorch''\<rparr>)]\<rparr>)"
proof -
  let ?a = "\<lparr>train_indices = [1, 3, 4], test_indices = [0, 2]\<rparr>"
  let ?b = "\<lparr>train_indices = [0, 1, 2], test_indices = [3, 4]\<rparr>"
  have eff: "map (effective_split demo_ext demo_fs (project_config demo_mixed))
               (shuffles demo_mixed) = map Some [?a, ?a, ?b]"
    by (simp add: demo_mixed_def effective_split_def split_on_disk_def demo_defs
        demo_50_1_unloaded_def well_formed_indices_def normalized_indices_def castable_def
        int_part_def int64_values_def)
  have names: "distinct (map name (shuffles demo_mixed))"
    by (simp add: demo_mixed_def demo_defs demo_50_1_unloaded_def)
  have ids: "first_id [?a, ?a, ?b] ?a = 1" "first_id [?a, ?a, ?b] ?b = 2"
    by (simp_all add: first_id_def)
  have "save demo_ext demo_fs demo_mixed =
          Inr (demo_fs\<lparr>metadata_file := Some
            (map (\<lambda>(s, sp). registry_entry s (first_id [?a, ?a, ?b] sp))
               (zip (shuffles demo_mixed) [?a, ?a, ?b]))\<rparr>)"
    using save_interns_splits [OF eff, THEN conjunct2, THEN conjunct1, THEN mp, OF names] .
  then have "save demo_ext demo_fs demo_mixed =
       Inr (demo_fs\<lparr>metadata_file := Some
         [(''demoJun17-trainset50shuffle1'',
           \<lparr>yaml_train_fraction = 1 / 2, yaml_index = 1, yaml_split = 1,
            yaml_engine = ''tensorflow''\<rparr>),
          (''demoJun17-trainset50shuffle2'',
           \<lparr>yaml_train_fraction = 1 / 2, yaml_index = 2, yaml_split = 1,
            yaml_engine = ''pytorch''\<rparr>),
          (''demoJun17-trainset60shuffle1'',
           \<lparr>yaml_train_fraction = 3 / 5, yaml_index = 1, yaml_split = 2,
            yaml_engine = ''pytorch''\<rparr>)]\<rparr>)"
    unfolding ids
    by (simp add: ids registry_entry_def demo_mixed_def demo_50_1_unloaded_def demo_50_2_def
        demo_60_1_def)
  moreover have "split (shuffles demo_mixed ! 0) = None"
    by (simp add: demo_mixed_def demo_50_1_unloaded_def)
  ultimately show ?thesis
    using eff by (intro conjI)
qed

subsection \<open>Saving and loading again\<close>

lemma Engine_of_primary:
  "Engine_of (case e of PYTORCH \<Rightarrow> ''pytorch'' | TF \<Rightarrow> ''tensorflow'') = Inr e"
  by (cases e) (simp_all add: Engine_of_def all_engines_def)

lemma split_on_disk_record [simp]:
  "split_on_disk ext fs cfg
     \<lparr>name = nm, train_fraction = train_fraction s, index = index s, engine = e, split = x\<rparr>
   = split_on_disk ext fs cfg s"
  by (simp add: split_on_disk_def)

lemma split_on_disk_saved [simp]:
  "split_on_disk ext (fs\<lparr>metadata_file := m\<rparr>) cfg s = split_on_disk ext fs cfg s"
  by (simp add: split_on_disk_def)

lemma load_loop_entries:
  "length sps = length shs \<Longrightarrow>
   load_loop ext fs cfg False (map (\<lambda>(s, sp). registry_entry s (f sp)) (zip shs sps))
     = Inr (map (\<lambda>s. s\<lparr>split := None\<rparr>) shs)"
  by (induction sps shs rule: list_induct2) (simp_all add: registry_entry_def Engine_of_primary)

lemma load_loop_entries_splits:
  assumes "map (split_on_disk ext fs cfg) shs = map Some dsps"
    and "length sps = length shs"
  shows "load_loop ext fs cfg True (map (\<lambda>(s, sp). registry_entry s (f sp)) (zip shs sps))
           = Inr (map (\<lambda>(s, sp). s\<lparr>split := Some sp\<rparr>) (zip shs dsps))"
  using assms
proof (induction shs arbitrary: sps dsps)
  case Nil
  then show ?case by simp
next
  case (Cons s shs)
  from Cons.prems(1) obtain d ds where dsps: "dsps = d # ds"
    by (cases dsps) auto
  from Cons.prems(2) obtain sp rest where sps: "sps = sp # rest"
    by (cases sps) auto
  let ?shuffle = "\<lparr>name = name s, train_fraction = train_fraction s, index = index s,
                   engine = engine s, split = None\<rparr>"
  from Cons.prems(1) have "split_on_disk ext fs cfg ?shuffle = Some d"
    by (simp add: dsps)
  then have "load_split ext fs cfg ?shuffle = Inr (?shuffle\<lparr>split := Some d\<rparr>)"
    by (rule load_split_on_disk)
  moreover have "?shuffle\<lparr>split := Some d\<rparr> = s\<lparr>split := Some d\<rparr>"
    by simp
  ultimately have one: "load_split ext fs cfg ?shuffle = Inr (s\<lparr>split := Some d\<rparr>)"
    by simp
  from Cons.prems have "load_loop ext fs cfg True
        (map (\<lambda>(s, sp). registry_entry s (f sp)) (zip shs rest))
      = Inr (map (\<lambda>(s, sp). s\<lparr>split := Some sp\<rparr>) (zip shs ds))"
    by (intro Cons.IH) (simp_all add: dsps sps)
  with one show ?case
    by (simp add: dsps sps registry_entry_def Engine_of_primary)
qed

lemma unload_keys:
  "map shuffle_key (map (\<lambda>s. s\<lparr>split := None\<rparr>) shs) = map shuffle_key shs"
  by (simp add: shuffle_key_def)

lemma reload_keys:
  "length sps = length shs \<Longrightarrow>
   map shuffle_key (map (\<lambda>(s, sp). s\<lparr>split := Some sp\<rparr>) (zip shs sps)) = map shuffle_key shs"
  by (induction sps shs rule: list_induct2) (simp_all add: shuffle_key_def)

lemma init_of_sorted:
  assumes "sorted_wrt (<) (map shuffle_key shs)"
  shows "TrainingDatasetMetadata_init cfg (sort_key shuffle_key shs)
           = Inr \<lparr>project_config = cfg, shuffles = shs\<rparr>"
proof -
  from assms have "sorted (map shuffle_key shs)"
    by (simp only: strict_sorted_iff)
  then have "sort_key shuffle_key shs = shs"
    by (rule sort_key_id_if_sorted)
  with assms show ?thesis
    by (simp add: init_Inr_iff)
qed

lemma load_saved:
  assumes sorted: "sorted_wrt (<) (map shuffle_key shs)"
    and len: "length sps = length shs"
    and written: "metadata_file fs = Some (map (\<lambda>(s, sp). registry_entry s (f sp)) (zip shs sps))"
  shows "load ext fs cfg False
           = Inr \<lparr>project_config = cfg, shuffles = map (\<lambda>s. s\<lparr>split := None\<rparr>) shs\<rparr>"
    and "map (split_on_disk ext fs cfg) shs = map Some dsps \<Longrightarrow>
         load ext fs cfg True
           = Inr \<lparr>project_config = cfg,
                  shuffles = map (\<lambda>(s, sp). s\<lparr>split := Some sp\<rparr>) (zip shs dsps)\<rparr>"
proof -
  from sorted have "sorted_wrt (<) (map shuffle_key (map (\<lambda>s. s\<lparr>split := None\<rparr>) shs))"
    by (simp only: unload_keys)
  then have "TrainingDatasetMetadata_init cfg
               (sort_key shuffle_key (map (\<lambda>s. s\<lparr>split := None\<rparr>) shs))
             = Inr \<lparr>project_config = cfg, shuffles = map (\<lambda>s. s\<lparr>split := None\<rparr>) shs\<rparr>"
    by (rule init_of_sorted)
  with written load_loop_entries [OF len, of ext fs cfg f]
  show "load ext fs cfg False
           = Inr \<lparr>project_config = cfg, shuffles = map (\<lambda>s. s\<lparr>split := None\<rparr>) shs\<rparr>"
    by (simp add: load_def)
next
  assume disk: "map (split_on_disk ext fs cfg) shs = map Some dsps"
  then have "length dsps = length shs"
    by (metis length_map)
  with sorted
  have "sorted_wrt (<) (map shuffle_key (map (\<lambda>(s, sp). s\<lparr>split := Some sp\<rparr>) (zip shs dsps)))"
    by (simp only: reload_keys)
  then have "TrainingDatasetMetadata_init cfg
               (sort_key shuffle_key (map (\<lambda>(s, sp). s\<lparr>split := Some sp\<rparr>) (zip shs dsps)))
             = Inr \<lparr>project_config = cfg,
                    shuffles = map (\<lambda>(s, sp). s\<lparr>split := Some sp\<rparr>) (zip shs dsps)\<rparr>"
    by (rule init_of_sorted)
  with written load_loop_entries_splits [OF disk len, of f]
  show "load ext fs cfg True
           = Inr \<lparr>project_config = cfg,
                  shuffles = map (\<lambda>(s, sp). s\<lparr>split := Some sp\<rparr>) (zip shs dsps)\<rparr>"
    by (simp add: load_def)
qed

text \<open>
  Claim C9, as the code has it. Let \<^verbatim>\<open>add\<close> return a registry whose records have pairwise
  different names and each a split, its own or else the one of its documentation file;
  let \<open>sps\<close> list these splits in the order of the records. Then \<^verbatim>\<open>save\<close> writes one entry
  for each record, in the order of the records, and two entries carry the same split id
  exactly when the splits of their records are equal. \<^verbatim>\<open>load\<close> of the saved file without
  the splits returns the same records in the same order with the same names, train
  fractions, indices and engines, and with no split. \<^verbatim>\<open>load\<close> with the splits returns
  these records with the splits that the documentation files hold, whatever the
  records carried when they were saved: it reproduces the split content exactly when
  the documentation files hold the splits \<open>sps\<close>.
\<close>

theorem save_load_roundtrip:
  assumes added: "add reg r overwrite = Inr reg'"
    and names: "distinct (map name (shuffles reg'))"
    and splits: "map (effective_split ext fs (project_config reg')) (shuffles reg') = map Some sps"
  shows "save ext fs reg' =
           Inr (fs\<lparr>metadata_file := Some
             (map (\<lambda>(s, sp). registry_entry s (first_id sps sp)) (zip (shuffles reg') sps))\<rparr>)
         \<and> (\<forall>i<length sps. \<forall>j<length sps.
               (first_id sps (sps ! i) = first_id sps (sps ! j)) = (sps ! i = sps ! j))
         \<and> (\<forall>fs'. save ext fs reg' = Inr fs' \<longrightarrow>
               load ext fs' (project_config reg') False
                 = Inr (reg'\<lparr>shuffles := map (\<lambda>s. s\<lparr>split := None\<rparr>) (shuffles reg')\<rparr>)
             \<and> (\<forall>dsps. map (split_on_disk ext fs (project_config reg')) (shuffles reg')
                          = map Some dsps \<longrightarrow>
                   load ext fs' (project_config reg') True
                     = Inr (reg'\<lparr>shuffles := map (\<lambda>(s, sp). s\<lparr>split := Some sp\<rparr>)
                                                (zip (shuffles reg') dsps)\<rparr>)))"
proof (intro conjI allI impI)
  let ?cfg = "project_config reg'"
  let ?shs = "shuffles reg'"
  let ?entries = "map (\<lambda>(s, sp). registry_entry s (first_id sps sp)) (zip ?shs sps)"
  from splits have len: "length sps = length ?shs"
    by (metis length_map)
  then have "map fst ?entries = map name ?shs"
    by (rule entries_names)
  with names have "dict_of ?entries = ?entries"
    by (intro dict_of_distinct) simp
  with save_effective [OF splits]
  show saved: "save ext fs reg' = Inr (fs\<lparr>metadata_file := Some ?entries\<rparr>)"
    by simp
  show "(first_id sps (sps ! i) = first_id sps (sps ! j)) = (sps ! i = sps ! j)"
    if "i < length sps" "j < length sps" for i j
    using that first_id_inj [of "sps ! i" sps "sps ! j"] by auto
  from added have sorted: "sorted_wrt (<) (map shuffle_key ?shs)"
    by (rule add_Inr_sorted)
  fix fs'
  assume "save ext fs reg' = Inr fs'"
  with saved have fs': "fs' = fs\<lparr>metadata_file := Some ?entries\<rparr>"
    by simp
  then have written: "metadata_file fs' = Some ?entries"
    by simp
  from load_saved(1) [OF sorted len written]
  show "load ext fs' ?cfg False = Inr (reg'\<lparr>shuffles := map (\<lambda>s. s\<lparr>split := None\<rparr>) ?shs\<rparr>)"
    by simp
  fix dsps
  assume "map (split_on_disk ext fs ?cfg) ?shs = map Some dsps"
  moreover have "split_on_disk ext fs' ?cfg = split_on_disk ext fs ?cfg"
    by (rule ext) (simp add: fs')
  ultimately have "map (split_on_disk ext fs' ?cfg) ?shs = map Some dsps"
    by simp
  from load_saved(2) [OF sorted len written this]
  show "load ext fs' ?cfg True
          = Inr (reg'\<lparr>shuffles := map (\<lambda>(s, sp). s\<lparr>split := Some sp\<rparr>) (zip ?shs dsps)\<rparr>)"
    by simp
qed

text \<open>
  The theorem at the small project: the PyTorch record of shuffle 1 at three fifths is
  added to the registry that holds shuffle 1 at one half, and both documentation files
  hold the splits of the records. Loading the saved file with the splits returns the
  registry that was saved.
\<close>

theorem save_load_roundtrip_witness:
  "add demo_single demo_60_1 False = Inr demo_registry
   \<and> distinct (map name (shuffles demo_registry))
   \<and> map (effective_split demo_ext demo_fs (project_config demo_registry))
         (shuffles demo_registry)
       = map Some [\<lparr>train_indices = [1, 3, 4], test_indices = [0, 2]\<rparr>,
                   \<lparr>train_indices = [0, 1, 2], test_indices = [3, 4]\<rparr>]
   \<and> map (split_on_disk demo_ext demo_fs (project_config demo_registry))
         (shuffles demo_registry)
       = map Some [\<lparr>train_indices = [1, 3, 4], test_indices = [0, 2]\<rparr>,
                   \<lparr>train_indices = [0, 1, 2], test_indices = [3, 4]\<rparr>]
   \<and> save demo_ext demo_fs demo_registry = Inr demo_fs_registry
   \<and> load demo_ext demo_fs_registry demo_cfg False
       = Inr \<lparr>project_config = demo_cfg,
              shuffles = [demo_50_1\<lparr>split := None\<rparr>, demo_60_1\<lparr>split := None\<rparr>]\<rparr>
   \<and> load demo_ext demo_fs_registry demo_cfg True = Inr demo_registry"
proof -
  let ?a = "\<lparr>train_indices = [1, 3, 4], test_indices = [0, 2]\<rparr>"
  let ?b = "\<lparr>train_indices = [0, 1, 2], test_indices = [3, 4]\<rparr>"
  have added: "add demo_single demo_60_1 False = Inr demo_registry"
    by (simp add: add_def demo_defs TrainingDatasetMetadata_init_def shuffles_in_order_def
        shuffle_key_def)
  have names: "distinct (map name (shuffles demo_registry))"
    by (simp add: demo_defs)
  have eff: "map (effective_split demo_ext demo_fs (project_config demo_registry))
               (shuffles demo_registry) = map Some [?a, ?b]"
    by (simp add: effective_split_def demo_defs)
  have disk: "map (split_on_disk demo_ext demo_fs (project_config demo_registry))
               (shuffles demo_registry) = map Some [?a, ?b]"
    by (simp add: split_on_disk_def demo_defs well_formed_indices_def normalized_indices_def
        castable_def int_part_def int64_values_def)
  note inst = save_load_roundtrip [OF added names eff]
  have ids: "first_id [?a, ?b] ?a = 1" "first_id [?a, ?b] ?b = 2"
    by (simp_all add: first_id_def)
  from inst [THEN conjunct1]
  have saved: "save demo_ext demo_fs demo_registry = Inr demo_fs_registry"
    unfolding ids by (simp add: ids registry_entry_def demo_defs)
  note loads = inst [THEN conjunct2, THEN conjunct2, THEN spec, THEN mp, OF saved]
  from loads [THEN conjunct1]
  have unloaded: "load demo_ext demo_fs_registry demo_cfg False
       = Inr \<lparr>project_config = demo_cfg,
              shuffles = [demo_50_1\<lparr>split := None\<rparr>, demo_60_1\<lparr>split := None\<rparr>]\<rparr>"
    by (simp add: demo_registry_def)
  from loads [THEN conjunct2, THEN spec, THEN mp, OF disk]
  have loaded: "load demo_ext demo_fs_registry demo_cfg True = Inr demo_registry"
    by (simp add: demo_registry_def demo_50_1_def demo_60_1_def)
  from added names eff disk saved unloaded loaded show ?thesis
    by (intro conjI)
qed

text \<open>
  The claim as the specification words it. First, with two records of one name, \<^verbatim>\<open>save\<close>
  writes one entry and \<^verbatim>\<open>load\<close> returns one record where two were saved. Second, the
  split ids written by \<^verbatim>\<open>save\<close> lead to no split content: shuffle 1 at one half is replaced
  by a record with the split (0, 1, 2) / (3, 4), the registry is saved, and \<^verbatim>\<open>load\<close> returns
  that record with no split, or with the split (1, 3, 4) / (0, 2) of its documentation
  file when the splits are loaded.
\<close>

theorem save_load_loses_record_and_split:
  "TrainingDatasetMetadata_init demo_cfg [demo_50_1] = Inr demo_single
   \<and> add demo_single demo_505_1 False = Inr demo_collide
   \<and> save demo_ext demo_fs demo_collide = Inr demo_fs_collide
   \<and> load demo_ext demo_fs_collide demo_cfg False = Inr demo_collide_loaded
   \<and> length (shuffles demo_collide) = 2
   \<and> length (shuffles demo_collide_loaded) = 1
   \<and> add demo_registry demo_50_1_torch True = Inr demo_overwritten
   \<and> save demo_ext demo_fs demo_overwritten = Inr demo_fs_overwritten
   \<and> load demo_ext demo_fs_overwritten demo_cfg True = Inr demo_overwritten_loaded
   \<and> map split (shuffles demo_overwritten)
       = [Some \<lparr>train_indices = [0, 1, 2], test_indices = [3, 4]\<rparr>,
          Some \<lparr>train_indices = [0, 1, 2], test_indices = [3, 4]\<rparr>]
   \<and> map split (shuffles demo_overwritten_loaded)
       = [Some \<lparr>train_indices = [1, 3, 4], test_indices = [0, 2]\<rparr>,
          Some \<lparr>train_indices = [0, 1, 2], test_indices = [3, 4]\<rparr>]
   \<and> load demo_ext demo_fs_overwritten demo_cfg False
       = Inr \<lparr>project_config = demo_cfg,
              shuffles = [demo_50_1_torch\<lparr>split := None\<rparr>, demo_60_1\<lparr>split := None\<rparr>]\<rparr>"
proof -
  have a: "TrainingDatasetMetadata_init demo_cfg [demo_50_1] = Inr demo_single"
    by (simp add: TrainingDatasetMetadata_init_def shuffles_in_order_def demo_defs)
  have b: "add demo_single demo_505_1 False = Inr demo_collide"
    by (simp add: add_def demo_defs TrainingDatasetMetadata_init_def shuffles_in_order_def
        shuffle_key_def)
  have c: "save demo_ext demo_fs demo_collide = Inr demo_fs_collide"
    by (simp add: save_def demo_defs with_split_def intern_split_def yaml_of_def)
  have d: "load demo_ext demo_fs_collide demo_cfg False = Inr demo_collide_loaded"
    by (simp add: load_def demo_defs Engine_of_def all_engines_def
        TrainingDatasetMetadata_init_def shuffles_in_order_def shuffle_key_def)
  have e: "length (shuffles demo_collide) = 2" "length (shuffles demo_collide_loaded) = 1"
    by (simp_all add: demo_collide_def demo_collide_loaded_def)
  have f: "add demo_registry demo_50_1_torch True = Inr demo_overwritten"
    by (simp add: add_def demo_defs TrainingDatasetMetadata_init_def shuffles_in_order_def
        shuffle_key_def)
  have g: "save demo_ext demo_fs demo_overwritten = Inr demo_fs_overwritten"
    by (simp add: save_def demo_defs with_split_def intern_split_def yaml_of_def)
  have h: "load demo_ext demo_fs_overwritten demo_cfg True = Inr demo_overwritten_loaded"
    by (simp add: load_def load_split_def demo_defs Engine_of_def all_engines_def
        TrainingDatasetMetadata_init_def shuffles_in_order_def shuffle_key_def split_init_defs)
  have i: "map split (shuffles demo_overwritten)
       = [Some \<lparr>train_indices = [0, 1, 2], test_indices = [3, 4]\<rparr>,
          Some \<lparr>train_indices = [0, 1, 2], test_indices = [3, 4]\<rparr>]"
    "map split (shuffles demo_overwritten_loaded)
       = [Some \<lparr>train_indices = [1, 3, 4], test_indices = [0, 2]\<rparr>,
          Some \<lparr>train_indices = [0, 1, 2], test_indices = [3, 4]\<rparr>]"
    by (simp_all add: demo_defs)
  have j: "load demo_ext demo_fs_overwritten demo_cfg False
       = Inr \<lparr>project_config = demo_cfg,
              shuffles = [demo_50_1_torch\<lparr>split := None\<rparr>, demo_60_1\<lparr>split := None\<rparr>]\<rparr>"
    by (simp add: load_def demo_defs Engine_of_def all_engines_def
        TrainingDatasetMetadata_init_def shuffles_in_order_def shuffle_key_def)
  from a b c d e f g h i j show ?thesis
    by (intro conjI)
qed

subsection \<open>The engine of a shuffle\<close>

lemma Engine_UNIV: "(UNIV :: Engine set) = {PYTORCH, TF}"
proof -
  have "e \<in> {PYTORCH, TF}" for e
    by (cases e) simp_all
  then show ?thesis
    by blast
qed

lemma load_config: "load ext fs cfg load_splits = Inr reg \<Longrightarrow> project_config reg = cfg"
  by (auto simp: load_def init_Inr_iff split: option.splits sum.splits)

lemma get_fraction:
  assumes "get reg trainset_index idx = Inr r"
  shows "py_getitem (TrainingFraction (project_config reg)) trainset_index = Inr (train_fraction r)"
proof -
  from assms obtain fraction where
    fr: "py_getitem (TrainingFraction (project_config reg)) trainset_index = Inr fraction"
    and found: "find (\<lambda>shuffle. train_fraction shuffle = fraction \<and> index shuffle = idx)
                  (shuffles reg) = Some r"
    by (auto simp: get_def split: sum.splits option.splits)
  from found have "train_fraction r = fraction"
    by (auto simp: find_Some_iff)
  with fr show ?thesis
    by simp
qed

lemma find_engines_set:
  assumes "py_getitem (TrainingFraction cfg) trainingsetindex = Inr fraction"
  shows "find_engines_from_model_folders ext fs cfg trainingsetindex shuffle modelprefix
           = Inr {e. get_model_folder ext cfg fraction shuffle e modelprefix \<in> model_folders fs}"
proof -
  have "{e. P e} = (if P TF then insert TF else id) (if P PYTORCH then {PYTORCH} else {})"
    for P :: "Engine \<Rightarrow> bool"
  proof (rule set_eqI)
    fix e
    show "e \<in> {e. P e}
            \<longleftrightarrow> e \<in> (if P TF then insert TF else id) (if P PYTORCH then {PYTORCH} else {})"
      by (cases e) auto
  qed
  with assms show ?thesis
    by (simp add: find_engines_from_model_folders_def all_engines_def)
qed

lemma ensure_metadata_folders:
  "ensure_metadata ext fs cfg = Inr fs' \<Longrightarrow> model_folders fs' = model_folders fs"
  by (auto simp: ensure_metadata_def save_def split: if_splits sum.splits)

lemma engine_set_many:
  assumes "1 < card (E :: Engine set)"
  shows "E = UNIV"
proof -
  have fin: "finite (UNIV :: Engine set)" and two: "card (UNIV :: Engine set) = 2"
    by (simp_all add: Engine_UNIV)
  have "card E \<le> card (UNIV :: Engine set)"
    using fin by (intro card_mono) simp_all
  with assms two have "card E = card (UNIV :: Engine set)"
    by simp
  with fin show ?thesis
    by (intro card_subset_eq) simp_all
qed

lemma engine_set_one:
  assumes "card (E :: Engine set) = 1" and "pop_returns_member ext"
  shows "E = {set_pop ext E}"
proof -
  from assms(1) obtain e where E: "E = {e}"
    by (auto simp: card_1_singleton_iff)
  then have "E \<noteq> {}"
    by simp
  with assms(2) have "set_pop ext E \<in> E"
    by (simp add: pop_returns_member_def)
  with E show ?thesis
    by simp
qed

lemma select_engine_unfold:
  assumes "load ext fs cfg False = Inr reg" and "get reg trainingsetindex shuffle = Inr r"
  shows "select_engine ext fs cfg trainingsetindex shuffle modelprefix =
     (if modelprefix \<noteq> [] then
        (if card {e. get_model_folder ext cfg (train_fraction r) shuffle e modelprefix
                       \<in> model_folders fs} = 0
         then Inl NoEngineFound
         else if card {e. get_model_folder ext cfg (train_fraction r) shuffle e modelprefix
                            \<in> model_folders fs} = 1
         then Inr (set_pop ext {e. get_model_folder ext cfg (train_fraction r) shuffle e modelprefix
                                     \<in> model_folders fs})
         else if engine r \<in> {e. get_model_folder ext cfg (train_fraction r) shuffle e modelprefix
                                   \<in> model_folders fs}
         then Inr (engine r)
         else Inr (set_pop ext {e. get_model_folder ext cfg (train_fraction r) shuffle e modelprefix
                                     \<in> model_folders fs}))
      else Inr (engine r))"
proof -
  from assms(1) have "project_config reg = cfg"
    by (rule load_config)
  with assms(2) have "py_getitem (TrainingFraction cfg) trainingsetindex = Inr (train_fraction r)"
    using get_fraction by blast
  then have "find_engines_from_model_folders ext fs cfg trainingsetindex shuffle modelprefix
      = Inr {e. get_model_folder ext cfg (train_fraction r) shuffle e modelprefix
                  \<in> model_folders fs}"
    by (rule find_engines_set)
  with assms show ?thesis
    by (simp add: select_engine_def)
qed

lemma get_shuffle_engine_unfold:
  assumes "ensure_metadata ext fs cfg = Inr fs'"
  shows "fst (get_shuffle_engine ext fs cfg trainingsetindex shuffle modelprefix)
           = select_engine ext fs' cfg trainingsetindex shuffle modelprefix"
  using assms by (simp add: get_shuffle_engine_def)

lemma Engine_of_alias: "v \<in> set (aliases e) \<Longrightarrow> Engine_of v = Inr e"
  by (cases e) (simp_all add: Engine_of_def all_engines_def)

lemma find_SomeD: "find P xs = Some x \<Longrightarrow> P x \<and> x \<in> set xs"
  by (induction xs) (auto split: if_splits)

lemma py_getitem_slot:
  "valid_slot cfg i \<Longrightarrow> py_getitem (TrainingFraction cfg) i = Inr (slot_fraction cfg i)"
  by (auto simp: valid_slot_def py_getitem_def slot_fraction_def)

text \<open>The record that \<^verbatim>\<open>load\<close> makes of an entry of the file, the splits not loaded.\<close>

lemma load_loop_known:
  assumes "\<forall>(nm, y) \<in> set md. \<exists>e. yaml_engine y \<in> set (aliases e)"
  shows "load_loop ext fs cfg False md
           = Inr (map (\<lambda>(nm, y). \<lparr>name = nm, train_fraction = yaml_train_fraction y,
                                   index = yaml_index y,
                                   engine = projr (Engine_of (yaml_engine y)),
                                   split = None\<rparr>) md)"
  using assms
proof (induction md)
  case Nil
  show ?case by simp
next
  case (Cons p md)
  obtain nm y where p: "p = (nm, y)"
    by (cases p)
  with Cons.prems obtain e where "yaml_engine y \<in> set (aliases e)"
    by auto
  then have "Engine_of (yaml_engine y) = Inr e"
    by (rule Engine_of_alias)
  moreover from Cons have "load_loop ext fs cfg False md
           = Inr (map (\<lambda>(nm, y). \<lparr>name = nm, train_fraction = yaml_train_fraction y,
                                   index = yaml_index y,
                                   engine = projr (Engine_of (yaml_engine y)),
                                   split = None\<rparr>) md)"
    by simp
  ultimately show ?case
    by (simp add: p)
qed

lemma load_registry_file:
  assumes written: "metadata_file fs = Some md"
    and pairs: "distinct (map (\<lambda>(nm, y). (yaml_train_fraction y, yaml_index y)) md)"
    and known: "\<forall>(nm, y) \<in> set md. \<exists>e. yaml_engine y \<in> set (aliases e)"
    and slot: "valid_slot cfg i"
    and entry: "(nm, y) \<in> set md" "yaml_train_fraction y = slot_fraction cfg i"
      "yaml_index y = shuffle" "yaml_engine y \<in> set (aliases e_reg)"
  shows "\<exists>reg r. load ext fs cfg False = Inr reg \<and> get reg i shuffle = Inr r
           \<and> train_fraction r = slot_fraction cfg i \<and> engine r = e_reg"
proof -
  define rec :: "string \<times> yaml_shuffle \<Rightarrow> ShuffleMetadata"
    where "rec = (\<lambda>(nm, y). \<lparr>name = nm, train_fraction = yaml_train_fraction y,
                                       index = yaml_index y,
                                       engine = projr (Engine_of (yaml_engine y)),
                                       split = None\<rparr>)"
  let ?rs = "map rec md"
  let ?sorted = "sort_key shuffle_key ?rs"
  let ?reg = "\<lparr>project_config = cfg, shuffles = ?sorted\<rparr>"
  have keys: "map shuffle_key ?rs = map (\<lambda>(nm, y). (yaml_train_fraction y, yaml_index y)) md"
    by (simp add: rec_def shuffle_key_def case_prod_unfold)
  have dist: "distinct (map shuffle_key ?rs)"
    unfolding keys by (rule pairs)
  have "mset (map shuffle_key ?sorted) = mset (map shuffle_key ?rs)"
    by (simp add: multiset.map_comp)
  with dist have "distinct (map shuffle_key ?sorted)"
    by (metis distinct_count_atmost_1 set_mset_mset)
  moreover have "sorted (map shuffle_key ?sorted)"
    by simp
  ultimately have "sorted_wrt (<) (map shuffle_key ?sorted)"
    by (simp only: strict_sorted_iff)
  then have init: "TrainingDatasetMetadata_init cfg ?sorted = Inr ?reg"
    by (simp add: init_Inr_iff)
  from known have "load_loop ext fs cfg False md = Inr ?rs"
    unfolding rec_def by (rule load_loop_known)
  with written init have loaded: "load ext fs cfg False = Inr ?reg"
    by (simp add: load_def)
  let ?wanted = "\<lambda>s. train_fraction s = slot_fraction cfg i \<and> index s = shuffle"
  from entry(1) have member: "rec (nm, y) \<in> set ?sorted"
    by simp
  from entry(2,3) have wanted: "?wanted (rec (nm, y))"
    by (simp add: rec_def)
  with member obtain r where found: "find ?wanted ?sorted = Some r"
    by (cases "find ?wanted ?sorted") (auto simp: find_None_iff)
  then have "?wanted r \<and> r \<in> set ?sorted"
    by (rule find_SomeD)
  with wanted have "shuffle_key r = shuffle_key (rec (nm, y))" and "r \<in> set ?rs"
    by (simp_all add: shuffle_key_def)
  moreover from dist have "inj_on shuffle_key (set ?rs)"
    by (simp only: distinct_map)
  moreover from entry(1) have "rec (nm, y) \<in> set ?rs"
    by simp
  ultimately have "r = rec (nm, y)"
    by (auto dest: inj_onD)
  moreover from entry(4) have "Engine_of (yaml_engine y) = Inr e_reg"
    by (rule Engine_of_alias)
  ultimately have r: "train_fraction r = slot_fraction cfg i" "engine r = e_reg"
    using entry(2) by (simp_all add: rec_def)
  from slot found have "get ?reg i shuffle = Inr r"
    by (simp add: get_def py_getitem_slot)
  with loaded r show ?thesis
    by blast
qed

lemma ensure_metadata_present:
  "metadata_file fs = Some md \<Longrightarrow> ensure_metadata ext fs cfg = Inr fs"
  by (simp add: ensure_metadata_def)

lemma ensure_metadata_created:
  "metadata_file fs = None \<Longrightarrow> create ext fs cfg = Inr reg \<Longrightarrow> save ext fs reg = Inr fs' \<Longrightarrow>
   ensure_metadata ext fs cfg = Inr fs'"
  by (simp add: ensure_metadata_def)

text \<open>
  Claim C6. Let \<^verbatim>\<open>metadata.yaml\<close> be there, or be missing and written by \<^verbatim>\<open>create\<close> and \<^verbatim>\<open>save\<close>
  first, and let it be a registry: no two entries with the same train fraction and
  index, every engine a known alias. Let the trainset slot be one of the configuration
  and let the file hold an entry with the train fraction of that slot, the requested
  shuffle index and an alias of the engine \<open>e_reg\<close>. Then without a model prefix the call
  returns \<open>e_reg\<close>; with a prefix under which the model folder of exactly one engine
  exists, it returns that engine, whatever the entry says; with a prefix under which no
  model folder exists, it fails with NoEngineFound.
\<close>

theorem get_shuffle_engine_resolves:
  assumes registry: "fs' = fs \<or> (metadata_file fs = None
                       \<and> (\<exists>reg0. create ext fs cfg = Inr reg0 \<and> save ext fs reg0 = Inr fs'))"
    and written: "metadata_file fs' = Some md"
    and pairs: "distinct (map (\<lambda>(nm, y). (yaml_train_fraction y, yaml_index y)) md)"
    and known: "\<forall>(nm, y) \<in> set md. \<exists>e. yaml_engine y \<in> set (aliases e)"
    and slot: "valid_slot cfg i"
    and entry: "(nm, y) \<in> set md" "yaml_train_fraction y = slot_fraction cfg i"
      "yaml_index y = shuffle" "yaml_engine y \<in> set (aliases e_reg)"
  shows "get_shuffle_engine ext fs cfg i shuffle [] = (Inr e_reg, fs')
     \<and> (modelprefix \<noteq> [] \<and> pop_returns_member ext
          \<and> {e'. get_model_folder ext cfg (slot_fraction cfg i) shuffle e' modelprefix
                    \<in> model_folders fs} = {e}
          \<longrightarrow> get_shuffle_engine ext fs cfg i shuffle modelprefix = (Inr e, fs'))
     \<and> (modelprefix \<noteq> []
          \<and> {e'. get_model_folder ext cfg (slot_fraction cfg i) shuffle e' modelprefix
                    \<in> model_folders fs} = {}
          \<longrightarrow> get_shuffle_engine ext fs cfg i shuffle modelprefix = (Inl NoEngineFound, fs'))"
proof -
  from registry have ens: "ensure_metadata ext fs cfg = Inr fs'"
  proof
    assume "fs' = fs"
    with written show ?thesis
      by (simp add: ensure_metadata_present)
  next
    assume "metadata_file fs = None
              \<and> (\<exists>reg0. create ext fs cfg = Inr reg0 \<and> save ext fs reg0 = Inr fs')"
    then obtain reg0 where "metadata_file fs = None" "create ext fs cfg = Inr reg0"
      "save ext fs reg0 = Inr fs'"
      by (elim exE conjE)
    then show ?thesis
      by (rule ensure_metadata_created)
  qed
  then have folders: "model_folders fs' = model_folders fs"
    by (rule ensure_metadata_folders)
  from load_registry_file [OF written pairs known slot entry, of ext]
  obtain reg r where loaded: "load ext fs' cfg False = Inr reg"
    and got: "get reg i shuffle = Inr r"
    and r: "train_fraction r = slot_fraction cfg i" "engine r = e_reg"
    by (elim exE conjE)
  note sel = select_engine_unfold [OF loaded got, unfolded folders r]
  have gse: "get_shuffle_engine ext fs cfg i shuffle pre
               = (select_engine ext fs' cfg i shuffle pre, fs')" for pre
    using ens by (simp add: get_shuffle_engine_def)
  have plain: "get_shuffle_engine ext fs cfg i shuffle [] = (Inr e_reg, fs')"
    by (simp add: gse sel)
  have one: "get_shuffle_engine ext fs cfg i shuffle modelprefix = (Inr e, fs')"
    if "modelprefix \<noteq> [] \<and> pop_returns_member ext
        \<and> {e'. get_model_folder ext cfg (slot_fraction cfg i) shuffle e' modelprefix
                  \<in> model_folders fs} = {e}"
  proof -
    have "card {e} = 1"
      by simp
    moreover from that have "pop_returns_member ext"
      by simp
    ultimately have "{e} = {set_pop ext {e}}"
      by (rule engine_set_one)
    then have "set_pop ext {e} = e"
      by simp
    with that show ?thesis
      by (simp add: gse sel)
  qed
  have none: "get_shuffle_engine ext fs cfg i shuffle modelprefix = (Inl NoEngineFound, fs')"
    if "modelprefix \<noteq> []
        \<and> {e'. get_model_folder ext cfg (slot_fraction cfg i) shuffle e' modelprefix
                  \<in> model_folders fs} = {}"
    using that by (simp add: gse sel)
  from plain one none show ?thesis
    by (intro conjI impI)
qed

lemma demo_ensure: "ensure_metadata demo_ext demo_fs demo_cfg = Inr demo_fs_saved"
proof -
  have "metadata_file demo_fs = None"
    by (simp add: demo_fs_def)
  then show ?thesis
    by (simp add: ensure_metadata_def demo_create demo_save)
qed

lemma demo_get: "get demo_loaded 0 1 = Inr demo_50_1_unloaded"
  by (simp add: get_def py_getitem_def demo_defs)

lemma demo_pop: "pop_returns_member demo_ext"
proof -
  have "(if PYTORCH \<in> S then PYTORCH else TF) \<in> S" if "S \<noteq> {}" for S
  proof -
    from that obtain e where "e \<in> S"
      by blast
    then show ?thesis
      by (cases e) simp_all
  qed
  then show ?thesis
    by (simp add: pop_returns_member_def demo_ext_def)
qed

lemma demo_slots:
  "valid_slot demo_cfg (- 1)" "slot_fraction demo_cfg (- 1) = 3 / 5"
  "valid_slot demo_cfg 0" "slot_fraction demo_cfg 0 = 1 / 2"
  by (simp_all add: valid_slot_def slot_fraction_def demo_cfg_def)

lemma demo_folders_last:
  "{e'. get_model_folder demo_ext demo_cfg (3 / 5) 1 e' ''exp'' \<in> model_folders demo_fs_added}
     = {TF}"
  "{e'. get_model_folder demo_ext demo_cfg (3 / 5) 1 e' ''old'' \<in> model_folders demo_fs_added}
     = {}"
proof -
  show "{e'. get_model_folder demo_ext demo_cfg (3 / 5) 1 e' ''exp''
               \<in> model_folders demo_fs_added} = {TF}"
  proof (rule set_eqI)
    fix e
    show "e \<in> {e'. get_model_folder demo_ext demo_cfg (3 / 5) 1 e' ''exp''
                      \<in> model_folders demo_fs_added} \<longleftrightarrow> e \<in> {TF}"
      by (cases e) (simp_all add: demo_defs)
  qed
  show "{e'. get_model_folder demo_ext demo_cfg (3 / 5) 1 e' ''old''
               \<in> model_folders demo_fs_added} = {}"
  proof (rule set_eqI)
    fix e
    show "e \<in> {e'. get_model_folder demo_ext demo_cfg (3 / 5) 1 e' ''old''
                      \<in> model_folders demo_fs_added} \<longleftrightarrow> e \<in> {}"
      by (cases e) (simp_all add: demo_defs)
  qed
qed

lemma demo_folders_first:
  "{e'. get_model_folder demo_ext demo_cfg (1 / 2) 1 e' ''exp'' \<in> model_folders demo_fs}
     = {PYTORCH}"
proof (rule set_eqI)
  fix e
  show "e \<in> {e'. get_model_folder demo_ext demo_cfg (1 / 2) 1 e' ''exp''
                    \<in> model_folders demo_fs} \<longleftrightarrow> e \<in> {PYTORCH}"
    by (cases e) (simp_all add: demo_defs)
qed

text \<open>
  The theorem at the small project. With the file of three entries, the last slot and
  shuffle 1 name the third entry, a PyTorch record: the call returns PyTorch without a
  prefix, TensorFlow under the prefix ``exp'', where only the TensorFlow folder of that
  shuffle exists, and fails under the prefix ``old''. With no file yet, the file is
  written first; slot 0 and shuffle 1 name its first entry, a TensorFlow record, and
  under ``exp'' the call returns PyTorch.
\<close>

theorem get_shuffle_engine_resolves_witness:
  "metadata_file demo_fs_added \<noteq> None
   \<and> valid_slot demo_cfg (- 1) \<and> slot_fraction demo_cfg (- 1) = 3 / 5
   \<and> get_shuffle_engine demo_ext demo_fs_added demo_cfg (- 1) 1 []
       = (Inr PYTORCH, demo_fs_added)
   \<and> get_shuffle_engine demo_ext demo_fs_added demo_cfg (- 1) 1 ''exp''
       = (Inr TF, demo_fs_added)
   \<and> get_shuffle_engine demo_ext demo_fs_added demo_cfg (- 1) 1 ''old''
       = (Inl NoEngineFound, demo_fs_added)
   \<and> metadata_file demo_fs = None
   \<and> create demo_ext demo_fs demo_cfg = Inr demo_created
   \<and> save demo_ext demo_fs demo_created = Inr demo_fs_saved
   \<and> metadata_file demo_fs_saved = Some demo_yaml
   \<and> get_shuffle_engine demo_ext demo_fs demo_cfg 0 1 [] = (Inr TF, demo_fs_saved)
   \<and> get_shuffle_engine demo_ext demo_fs demo_cfg 0 1 ''exp'' = (Inr PYTORCH, demo_fs_saved)"
proof -
  let ?third = "(''demoJun17-trainset60shuffle1'',
                 \<lparr>yaml_train_fraction = 3 / 5, yaml_index = 1, yaml_split = 2,
                  yaml_engine = ''pytorch''\<rparr>)"
  let ?md = "[(''demoJun17-trainset50shuffle1'',
               \<lparr>yaml_train_fraction = 1 / 2, yaml_index = 1, yaml_split = 1,
                yaml_engine = ''tensorflow''\<rparr>),
              (''demoJun17-trainset50shuffle2'',
               \<lparr>yaml_train_fraction = 1 / 2, yaml_index = 2, yaml_split = 1,
                yaml_engine = ''pytorch''\<rparr>),
              ?third]"
  have written: "metadata_file demo_fs_added = Some ?md"
    by (simp add: demo_fs_added_def)
  have pairs: "distinct (map (\<lambda>(nm, y). (yaml_train_fraction y, yaml_index y)) ?md)"
    by simp
  have "''tensorflow'' \<in> set (aliases TF)"
    by simp
  then have tf: "\<exists>e. ''tensorflow'' \<in> set (aliases e)" ..
  have "''pytorch'' \<in> set (aliases PYTORCH)"
    by simp
  then have "\<exists>e. ''pytorch'' \<in> set (aliases e)" ..
  note kn = tf this
  have known: "\<forall>(nm, y) \<in> set ?md. \<exists>e. yaml_engine y \<in> set (aliases e)"
    using kn by simp
  have entry: "?third \<in> set ?md" "yaml_train_fraction (snd ?third) = slot_fraction demo_cfg (- 1)"
    "yaml_index (snd ?third) = 1" "yaml_engine (snd ?third) \<in> set (aliases PYTORCH)"
    by (simp_all add: demo_slots)
  note last = get_shuffle_engine_resolves [of demo_fs_added demo_fs_added demo_ext demo_cfg
      ?md "- 1" "fst ?third" "snd ?third" 1 PYTORCH, OF disjI1 [OF refl] written pairs known demo_slots(1),
      unfolded prod.collapse, OF entry, unfolded demo_slots(2)]
  have a: "get_shuffle_engine demo_ext demo_fs_added demo_cfg (- 1) 1 []
             = (Inr PYTORCH, demo_fs_added)"
    by (rule last [THEN conjunct1])
  have "''exp'' \<noteq> [] \<and> pop_returns_member demo_ext
        \<and> {e'. get_model_folder demo_ext demo_cfg (3 / 5) 1 e' ''exp''
                  \<in> model_folders demo_fs_added} = {TF}"
    using demo_pop demo_folders_last(1) by simp
  then have b: "get_shuffle_engine demo_ext demo_fs_added demo_cfg (- 1) 1 ''exp''
                  = (Inr TF, demo_fs_added)"
    by (rule last [THEN conjunct2, THEN conjunct1, THEN mp])
  have "''old'' \<noteq> []
        \<and> {e'. get_model_folder demo_ext demo_cfg (3 / 5) 1 e' ''old''
                  \<in> model_folders demo_fs_added} = {}"
    using demo_folders_last(2) by simp
  then have c: "get_shuffle_engine demo_ext demo_fs_added demo_cfg (- 1) 1 ''old''
                  = (Inl NoEngineFound, demo_fs_added)"
    by (rule last [THEN conjunct2, THEN conjunct2, THEN mp])
  let ?first = "(''demoJun17-trainset50shuffle1'',
                 \<lparr>yaml_train_fraction = 1 / 2, yaml_index = 1, yaml_split = 1,
                  yaml_engine = ''tensorflow''\<rparr>)"
  have missing: "metadata_file demo_fs = None"
    by (simp add: demo_fs_def)
  with demo_create demo_save
  have made: "demo_fs_saved = demo_fs \<or> (metadata_file demo_fs = None
                \<and> (\<exists>reg0. create demo_ext demo_fs demo_cfg = Inr reg0
                           \<and> save demo_ext demo_fs reg0 = Inr demo_fs_saved))"
    by (intro disjI2 conjI exI)
  have written': "metadata_file demo_fs_saved = Some demo_yaml"
    by (simp add: demo_fs_saved_def)
  have pairs': "distinct (map (\<lambda>(nm, y). (yaml_train_fraction y, yaml_index y)) demo_yaml)"
    by (simp add: demo_yaml_def)
  have known': "\<forall>(nm, y) \<in> set demo_yaml. \<exists>e. yaml_engine y \<in> set (aliases e)"
    using kn by (simp add: demo_yaml_def)
  have entry': "?first \<in> set demo_yaml"
    "yaml_train_fraction (snd ?first) = slot_fraction demo_cfg 0"
    "yaml_index (snd ?first) = 1" "yaml_engine (snd ?first) \<in> set (aliases TF)"
    by (simp_all add: demo_slots demo_yaml_def)
  note first = get_shuffle_engine_resolves [of demo_fs_saved demo_fs demo_ext demo_cfg
      demo_yaml 0 "fst ?first" "snd ?first" 1 TF, OF made written' pairs' known' demo_slots(3),
      unfolded prod.collapse, OF entry', unfolded demo_slots(4)]
  have d: "get_shuffle_engine demo_ext demo_fs demo_cfg 0 1 [] = (Inr TF, demo_fs_saved)"
    by (rule first [THEN conjunct1])
  have "''exp'' \<noteq> [] \<and> pop_returns_member demo_ext
        \<and> {e'. get_model_folder demo_ext demo_cfg (1 / 2) 1 e' ''exp''
                  \<in> model_folders demo_fs} = {PYTORCH}"
    using demo_pop demo_folders_first by simp
  then have e: "get_shuffle_engine demo_ext demo_fs demo_cfg 0 1 ''exp''
                  = (Inr PYTORCH, demo_fs_saved)"
    by (rule first [THEN conjunct2, THEN conjunct1, THEN mp])
  from written have present: "metadata_file demo_fs_added \<noteq> None"
    by simp
  from present demo_slots(1,2) a b c missing demo_create demo_save written' d e
  show ?thesis
    by (intro conjI)
qed

subsection \<open>Independence of the order of set.pop\<close>

lemma load_split_pop: "load_split (ext\<lparr>set_pop := p\<rparr>) fs cfg s = load_split ext fs cfg s"
  by (simp add: load_split_def)

lemma with_split_pop: "with_split (ext\<lparr>set_pop := p\<rparr>) fs cfg s = with_split ext fs cfg s"
  by (simp add: with_split_def load_split_pop)

lemma save_loop_pop:
  "save_loop (ext\<lparr>set_pop := p\<rparr>) fs cfg shs metadata ds = save_loop ext fs cfg shs metadata ds"
  by (induction shs arbitrary: metadata ds) (simp_all add: with_split_pop cong: sum.case_cong)

lemma save_pop: "save (ext\<lparr>set_pop := p\<rparr>) fs reg = save ext fs reg"
  by (simp add: save_def save_loop_pop cong: sum.case_cong)

lemma load_loop_pop:
  "load_loop (ext\<lparr>set_pop := p\<rparr>) fs cfg load_splits metadata
     = load_loop ext fs cfg load_splits metadata"
proof (induction metadata)
  case Nil
  show ?case by simp
next
  case (Cons entry metadata)
  then show ?case
    by (cases entry) (simp add: load_split_pop Let_def cong: sum.case_cong if_cong)
qed

lemma load_pop: "load (ext\<lparr>set_pop := p\<rparr>) fs cfg load_splits = load ext fs cfg load_splits"
  by (simp add: load_def load_loop_pop cong: sum.case_cong option.case_cong)

lemma create_loop_pop:
  "create_loop (ext\<lparr>set_pop := p\<rparr>) pre docs existing = create_loop ext pre docs existing"
proof (induction docs arbitrary: existing)
  case Nil
  show ?case by simp
next
  case (Cons doc docs)
  then show ?case
    by (cases doc)
      (simp cong: sum.case_cong option.case_cong file_content.case_cong)
qed

lemma create_pop: "create (ext\<lparr>set_pop := p\<rparr>) fs cfg = create ext fs cfg"
  by (simp add: create_def create_loop_pop cong: sum.case_cong)

lemma ensure_metadata_pop:
  "ensure_metadata (ext\<lparr>set_pop := p\<rparr>) fs cfg = ensure_metadata ext fs cfg"
  by (simp add: ensure_metadata_def create_pop save_pop cong: sum.case_cong)

lemma find_engines_pop:
  "find_engines_from_model_folders (ext\<lparr>set_pop := p\<rparr>) fs cfg i sh pre
     = find_engines_from_model_folders ext fs cfg i sh pre"
  by (simp add: find_engines_from_model_folders_def cong: sum.case_cong if_cong)

lemma select_engine_pop:
  assumes "pop_returns_member (ext\<lparr>set_pop := pop1\<rparr>)"
    and "pop_returns_member (ext\<lparr>set_pop := pop2\<rparr>)"
  shows "select_engine (ext\<lparr>set_pop := pop1\<rparr>) fs cfg i sh pre
           = select_engine (ext\<lparr>set_pop := pop2\<rparr>) fs cfg i sh pre"
proof (cases "load ext fs cfg False")
  case (Inl e)
  then show ?thesis
    by (simp add: select_engine_def load_pop)
next
  case (Inr reg)
  note loaded = this
  show ?thesis
  proof (cases "get reg i sh")
    case (Inl e)
    with loaded show ?thesis
      by (simp add: select_engine_def load_pop)
  next
    case (Inr r)
    let ?E1 = "{e. get_model_folder (ext\<lparr>set_pop := pop1\<rparr>) cfg (train_fraction r) sh e pre
                     \<in> model_folders fs}"
    let ?E = "{e. get_model_folder ext cfg (train_fraction r) sh e pre \<in> model_folders fs}"
    have l1: "load (ext\<lparr>set_pop := pop1\<rparr>) fs cfg False = Inr reg"
      and l2: "load (ext\<lparr>set_pop := pop2\<rparr>) fs cfg False = Inr reg"
      using loaded by (simp_all add: load_pop)
    have u1: "select_engine (ext\<lparr>set_pop := pop1\<rparr>) fs cfg i sh pre =
        (if pre \<noteq> [] then
           (if card ?E = 0 then Inl NoEngineFound
            else if card ?E = 1 then Inr (pop1 ?E)
            else if engine r \<in> ?E then Inr (engine r) else Inr (pop1 ?E))
         else Inr (engine r))"
      using select_engine_unfold [OF l1 Inr, of pre] by simp
    have u2: "select_engine (ext\<lparr>set_pop := pop2\<rparr>) fs cfg i sh pre =
        (if pre \<noteq> [] then
           (if card ?E = 0 then Inl NoEngineFound
            else if card ?E = 1 then Inr (pop2 ?E)
            else if engine r \<in> ?E then Inr (engine r) else Inr (pop2 ?E))
         else Inr (engine r))"
      using select_engine_unfold [OF l2 Inr, of pre] by simp
    have one: "pop1 ?E = pop2 ?E" if "card ?E = 1"
    proof -
      from that assms(1) have "?E = {set_pop (ext\<lparr>set_pop := pop1\<rparr>) ?E}"
        by (rule engine_set_one)
      moreover from that assms(2) have "?E = {set_pop (ext\<lparr>set_pop := pop2\<rparr>) ?E}"
        by (rule engine_set_one)
      ultimately have "{pop1 ?E} = {pop2 ?E}"
        by simp
      then show ?thesis
        by simp
    qed
    have many: "engine r \<in> ?E" if "card ?E \<noteq> 0" "card ?E \<noteq> 1"
    proof -
      from that have "1 < card ?E"
        by simp
      then have "?E = UNIV"
        by (rule engine_set_many)
      then show ?thesis
        by blast
    qed
    show ?thesis
      unfolding u1 u2 using one many by simp
  qed
qed

text \<open>
  Claim C7. Whatever element set.pop picks, get_shuffle_engine returns the same result
  and leaves the same files: two runs on the same registry and file system agree. When
  the model folders of more than one engine exist under a model prefix, the engine of
  the registry's record is returned; the enumeration has two engines, so the record's
  engine is always among the matches and the choice by set.pop is never reached.
\<close>

theorem get_shuffle_engine_deterministic:
  "(pop_returns_member (ext\<lparr>set_pop := pop1\<rparr>) \<and> pop_returns_member (ext\<lparr>set_pop := pop2\<rparr>)
      \<longrightarrow> get_shuffle_engine (ext\<lparr>set_pop := pop1\<rparr>) fs cfg trainingsetindex shuffle modelprefix
          = get_shuffle_engine (ext\<lparr>set_pop := pop2\<rparr>) fs cfg trainingsetindex shuffle modelprefix)
   \<and> (ensure_metadata ext fs cfg = Inr fs' \<and> load ext fs' cfg False = Inr reg
        \<and> get reg trainingsetindex shuffle = Inr r \<and> modelprefix \<noteq> []
        \<and> 1 < card {e. get_model_folder ext cfg (train_fraction r) shuffle e modelprefix
                         \<in> model_folders fs}
      \<longrightarrow> engine r \<in> {e. get_model_folder ext cfg (train_fraction r) shuffle e modelprefix
                            \<in> model_folders fs}
          \<and> fst (get_shuffle_engine ext fs cfg trainingsetindex shuffle modelprefix)
              = Inr (engine r))"
proof (intro conjI impI)
  assume pops: "pop_returns_member (ext\<lparr>set_pop := pop1\<rparr>)
                \<and> pop_returns_member (ext\<lparr>set_pop := pop2\<rparr>)"
  then have "select_engine (ext\<lparr>set_pop := pop1\<rparr>) fs2 cfg trainingsetindex shuffle modelprefix
           = select_engine (ext\<lparr>set_pop := pop2\<rparr>) fs2 cfg trainingsetindex shuffle modelprefix"
    for fs2
    by (intro select_engine_pop) simp_all
  then show "get_shuffle_engine (ext\<lparr>set_pop := pop1\<rparr>) fs cfg trainingsetindex shuffle modelprefix
          = get_shuffle_engine (ext\<lparr>set_pop := pop2\<rparr>) fs cfg trainingsetindex shuffle modelprefix"
    by (simp add: get_shuffle_engine_def ensure_metadata_pop cong: sum.case_cong)
next
  assume hyps: "ensure_metadata ext fs cfg = Inr fs' \<and> load ext fs' cfg False = Inr reg
        \<and> get reg trainingsetindex shuffle = Inr r \<and> modelprefix \<noteq> []
        \<and> 1 < card {e. get_model_folder ext cfg (train_fraction r) shuffle e modelprefix
                         \<in> model_folders fs}"
  let ?E = "{e. get_model_folder ext cfg (train_fraction r) shuffle e modelprefix
                  \<in> model_folders fs}"
  from hyps have ens: "ensure_metadata ext fs cfg = Inr fs'"
    and loaded: "load ext fs' cfg False = Inr reg"
    and got: "get reg trainingsetindex shuffle = Inr r"
    and pre: "modelprefix \<noteq> []" and many: "1 < card ?E"
    by simp_all
  from many have "?E = UNIV"
    by (rule engine_set_many)
  then have mem: "engine r \<in> ?E"
    by blast
  from ens have folders: "model_folders fs' = model_folders fs"
    by (rule ensure_metadata_folders)
  note sel = select_engine_unfold [OF loaded got, unfolded folders]
  from pre many mem
  have res: "fst (get_shuffle_engine ext fs cfg trainingsetindex shuffle modelprefix)
           = Inr (engine r)"
    by (simp add: get_shuffle_engine_unfold [OF ens] sel)
  from mem show "engine r \<in> ?E" .
  from res show "fst (get_shuffle_engine ext fs cfg trainingsetindex shuffle modelprefix)
           = Inr (engine r)" .
qed

lemma demo_pop_tf_first: "pop_returns_member demo_ext_tf_first"
proof -
  have "(if TF \<in> S then TF else PYTORCH) \<in> S" if "S \<noteq> {}" for S
  proof -
    from that obtain e where "e \<in> S"
      by blast
    then show ?thesis
      by (cases e) simp_all
  qed
  then show ?thesis
    by (simp add: pop_returns_member_def demo_ext_tf_first_def)
qed

lemma demo_folders_both:
  "{e'. get_model_folder demo_ext demo_cfg (train_fraction demo_50_1_unloaded) 1 e' ''both''
          \<in> model_folders demo_fs} = {PYTORCH, TF}"
proof (rule set_eqI)
  fix e
  show "e \<in> {e'. get_model_folder demo_ext demo_cfg (train_fraction demo_50_1_unloaded) 1 e' ''both''
                    \<in> model_folders demo_fs} \<longleftrightarrow> e \<in> {PYTORCH, TF}"
    by (cases e) (simp_all add: demo_defs)
qed

theorem get_shuffle_engine_deterministic_witness:
  "pop_returns_member demo_ext \<and> pop_returns_member demo_ext_tf_first
   \<and> set_pop demo_ext {PYTORCH, TF} = PYTORCH
   \<and> set_pop demo_ext_tf_first {PYTORCH, TF} = TF
   \<and> get_shuffle_engine demo_ext demo_fs demo_cfg 0 1 ''both''
       = get_shuffle_engine demo_ext_tf_first demo_fs demo_cfg 0 1 ''both''
   \<and> fst (get_shuffle_engine demo_ext demo_fs demo_cfg 0 1 ''both'') = Inr TF"
proof -
  let ?tf_first = "\<lambda>engines. if TF \<in> engines then TF else PYTORCH"
  have same: "demo_ext\<lparr>set_pop := set_pop demo_ext\<rparr> = demo_ext"
    by simp
  have other: "demo_ext\<lparr>set_pop := ?tf_first\<rparr> = demo_ext_tf_first"
    by (simp add: demo_ext_tf_first_def)
  have pops: "pop_returns_member (demo_ext\<lparr>set_pop := set_pop demo_ext\<rparr>)
              \<and> pop_returns_member (demo_ext\<lparr>set_pop := ?tf_first\<rparr>)"
    using demo_pop demo_pop_tf_first by (simp only: same other)
  have "get_shuffle_engine (demo_ext\<lparr>set_pop := set_pop demo_ext\<rparr>) demo_fs demo_cfg 0 1 ''both''
          = get_shuffle_engine (demo_ext\<lparr>set_pop := ?tf_first\<rparr>) demo_fs demo_cfg 0 1 ''both''"
    using pops by (rule get_shuffle_engine_deterministic [THEN conjunct1, THEN mp])
  then have agree: "get_shuffle_engine demo_ext demo_fs demo_cfg 0 1 ''both''
       = get_shuffle_engine demo_ext_tf_first demo_fs demo_cfg 0 1 ''both''"
    by (simp only: same other)
  have picks: "set_pop demo_ext {PYTORCH, TF} = PYTORCH"
    "set_pop demo_ext_tf_first {PYTORCH, TF} = TF"
    by (simp_all add: demo_ext_def demo_ext_tf_first_def)
  have "1 < card {e'. get_model_folder demo_ext demo_cfg (train_fraction demo_50_1_unloaded) 1 e'
                        ''both'' \<in> model_folders demo_fs}"
    by (simp add: demo_folders_both)
  with demo_ensure demo_load demo_get
  have "ensure_metadata demo_ext demo_fs demo_cfg = Inr demo_fs_saved
        \<and> load demo_ext demo_fs_saved demo_cfg False = Inr demo_loaded
        \<and> get demo_loaded 0 1 = Inr demo_50_1_unloaded \<and> ''both'' \<noteq> []
        \<and> 1 < card {e'. get_model_folder demo_ext demo_cfg (train_fraction demo_50_1_unloaded) 1 e'
                          ''both'' \<in> model_folders demo_fs}"
    by simp
  then have "engine demo_50_1_unloaded
               \<in> {e'. get_model_folder demo_ext demo_cfg (train_fraction demo_50_1_unloaded) 1 e'
                        ''both'' \<in> model_folders demo_fs}
             \<and> fst (get_shuffle_engine demo_ext demo_fs demo_cfg 0 1 ''both'')
                 = Inr (engine demo_50_1_unloaded)"
    by (rule get_shuffle_engine_deterministic [THEN conjunct2, THEN mp])
  then have stored: "fst (get_shuffle_engine demo_ext demo_fs demo_cfg 0 1 ''both'') = Inr TF"
    by (simp add: demo_50_1_unloaded_def)
  from demo_pop demo_pop_tf_first picks agree stored show ?thesis
    by (intro conjI)
qed

subsection \<open>Creating the registry from documentation files\<close>

lemma create_loop_Cons:
  "create_loop ext pre (doc # docs) existing =
     (case doc_shuffle ext pre doc of
        Inl e \<Rightarrow> Inl e
      | Inr s \<Rightarrow>
          (case create_loop ext pre docs
                  (snd (intern_split (the (map_option (\<lambda>sp. (train_indices sp, test_indices sp))
                                             (split s))) existing)) of
             Inl e \<Rightarrow> Inl e
           | Inr shs \<Rightarrow> Inr (s # shs)))"
  by (cases doc)
    (auto simp: doc_shuffle_def DataSplit_init_def
       split: option.splits file_content.splits sum.splits if_splits)

lemma doc_shuffle_engine: "doc_shuffle ext pre doc = Inr s \<Longrightarrow> engine s = TF"
  by (cases doc)
    (auto simp: doc_shuffle_def split: option.splits file_content.splits sum.splits)

lemma create_loop_map:
  "create_loop ext pre docs existing = Inr shs
     \<longleftrightarrow> map (doc_shuffle ext pre) docs = map Inr shs"
proof (induction docs arbitrary: existing shs)
  case Nil
  show ?case by auto
next
  case (Cons doc docs)
  show ?case
  proof (cases "doc_shuffle ext pre doc")
    case (Inl e)
    then show ?thesis
      by (auto simp: create_loop_Cons)
  next
    case (Inr s)
    let ?rest = "create_loop ext pre docs
      (snd (intern_split (the (map_option (\<lambda>sp. (train_indices sp, test_indices sp))
                                 (split s))) existing))"
    have unfold: "create_loop ext pre (doc # docs) existing =
        (case ?rest of Inl e \<Rightarrow> Inl e | Inr shs \<Rightarrow> Inr (s # shs))"
      using Inr by (simp add: create_loop_Cons)
    show ?thesis
    proof
      assume "create_loop ext pre (doc # docs) existing = Inr shs"
      with unfold obtain rest where rest: "?rest = Inr rest" and shs: "shs = s # rest"
        by (cases ?rest) auto
      from rest have "map (doc_shuffle ext pre) docs = map Inr rest"
        by (simp only: Cons.IH)
      with Inr shs show "map (doc_shuffle ext pre) (doc # docs) = map Inr shs"
        by simp
    next
      assume "map (doc_shuffle ext pre) (doc # docs) = map Inr shs"
      with Inr obtain rest where shs: "shs = s # rest"
        and "map (doc_shuffle ext pre) docs = map Inr rest"
        by (cases shs) auto
      then have "?rest = Inr rest"
        by (simp only: Cons.IH)
      with unfold shs show "create_loop ext pre (doc # docs) existing = Inr shs"
        by simp
    qed
  qed
qed

lemma create_loop_all:
  "create_loop ext pre docs existing = Inr shs
     \<longleftrightarrow> (\<forall>doc\<in>set docs. \<not> isl (doc_shuffle ext pre doc))
         \<and> shs = map (\<lambda>doc. projr (doc_shuffle ext pre doc)) docs"
proof -
  have "map (doc_shuffle ext pre) docs = map Inr shs
     \<longleftrightarrow> (\<forall>doc\<in>set docs. \<not> isl (doc_shuffle ext pre doc))
         \<and> shs = map (\<lambda>doc. projr (doc_shuffle ext pre doc)) docs"
  proof (induction docs arbitrary: shs)
    case Nil
    show ?case by auto
  next
    case (Cons doc docs)
    show ?case
    proof (cases shs)
      case Nil
      then show ?thesis by simp
    next
      case (Cons s rest)
      have "doc_shuffle ext pre doc = Inr s
              \<longleftrightarrow> \<not> isl (doc_shuffle ext pre doc) \<and> s = projr (doc_shuffle ext pre doc)"
        by (cases "doc_shuffle ext pre doc") auto
      with Cons Cons.IH [of rest] show ?thesis
        by auto
    qed
  qed
  then show ?thesis
    by (simp only: create_loop_map)
qed

lemma create_loop_permuted:
  assumes "create_loop ext pre docs existing = Inr shs" and "mset docs2 = mset docs"
  shows "\<exists>shs2. create_loop ext pre docs2 existing2 = Inr shs2 \<and> mset shs2 = mset shs"
proof -
  let ?g = "\<lambda>doc. projr (doc_shuffle ext pre doc)"
  from assms(1) have "(\<forall>doc\<in>set docs. \<not> isl (doc_shuffle ext pre doc)) \<and> shs = map ?g docs"
    by (rule create_loop_all [THEN iffD1])
  then have ok: "\<forall>doc\<in>set docs. \<not> isl (doc_shuffle ext pre doc)"
    and shs: "shs = map ?g docs"
    by blast+
  from assms(2) have "set docs2 = set docs"
    by (rule mset_eq_setD)
  with ok have "\<forall>doc\<in>set docs2. \<not> isl (doc_shuffle ext pre doc)"
    by simp
  then have "(\<forall>doc\<in>set docs2. \<not> isl (doc_shuffle ext pre doc))
      \<and> map ?g docs2 = map ?g docs2"
    by simp
  then have run: "create_loop ext pre docs2 existing2 = Inr (map ?g docs2)"
    by (rule create_loop_all [THEN iffD2])
  have "mset (map ?g docs2) = mset (map ?g docs)"
    using assms(2) by simp
  with shs have "mset (map ?g docs2) = mset shs"
    by simp
  with run show ?thesis
    by blast
qed

lemma create_loop_engine:
  assumes "create_loop ext pre docs existing = Inr shs" and "s \<in> set shs"
  shows "engine s = TF"
proof -
  from assms(1) have "map (doc_shuffle ext pre) docs = map Inr shs"
    by (rule create_loop_map [THEN iffD1])
  then have "set (map Inr shs) = set (map (doc_shuffle ext pre) docs)"
    by simp
  moreover from assms(2) have "Inr s \<in> set (map Inr shs)"
    by simp
  ultimately have "Inr s \<in> set (map (doc_shuffle ext pre) docs)"
    by (rule subst)
  then obtain doc where "doc_shuffle ext pre doc = Inr s"
    by auto
  then show ?thesis
    by (rule doc_shuffle_engine)
qed

text \<open>
  Claim C8. Every record of a registry that create returns carries the engine TF, and
  create returns the same registry from every file system whose training-set folder
  holds the same files, in whatever order they are listed: run again on unchanged
  directory contents, it yields an equal registry.
\<close>

theorem create_tags_tf_any_order:
  assumes "create ext fs cfg = Inr reg"
  shows "(\<forall>s\<in>set (shuffles reg). engine s = TF)
     \<and> (mset (trainset_files fs2) = mset (trainset_files fs) \<longrightarrow> create ext fs2 cfg = Inr reg)"
proof -
  let ?pre = "Task cfg @ date cfg"
  let ?docs = "filter (\<lambda>(fname, content). re_match_doc fname) (trainset_files fs)"
  let ?docs2 = "filter (\<lambda>(fname, content). re_match_doc fname) (trainset_files fs2)"
  from assms obtain shs where loop: "create_loop ext ?pre ?docs [] = Inr shs"
    and init: "TrainingDatasetMetadata_init cfg (sort_key shuffle_key shs) = Inr reg"
    by (auto simp: create_def Let_def split: sum.splits)
  from init have strict: "sorted_wrt (<) (map shuffle_key (sort_key shuffle_key shs))"
    and reg: "reg = \<lparr>project_config = cfg, shuffles = sort_key shuffle_key shs\<rparr>"
    by (simp_all add: init_Inr_iff)
  have tf: "\<forall>s\<in>set (shuffles reg). engine s = TF"
    using create_loop_engine [OF loop] by (simp add: reg)
  have again: "create ext fs2 cfg = Inr reg"
    if same: "mset (trainset_files fs2) = mset (trainset_files fs)"
  proof -
    from same have "mset ?docs2 = mset ?docs"
      by simp
    with loop obtain shs2 where loop2: "create_loop ext ?pre ?docs2 [] = Inr shs2"
      and perm: "mset shs2 = mset shs"
      using create_loop_permuted by blast
    from strict have "distinct (map shuffle_key (sort_key shuffle_key shs))"
      by (simp add: strict_sorted_iff)
    then have "inj_on shuffle_key (set (sort_key shuffle_key shs))"
      by (simp only: distinct_map)
    moreover from perm have "set shs2 = set shs"
      by (rule mset_eq_setD)
    ultimately have inj: "inj_on shuffle_key (set shs2)"
      by simp
    from perm have "mset shs2 = mset (sort_key shuffle_key shs)"
      by simp
    then have "sort_key shuffle_key shs2 = sort_key shuffle_key shs"
      using inj by (rule sort_key_inj_key_eq) simp
    with loop2 init show ?thesis
      by (simp add: create_def)
  qed
  from tf again show ?thesis
    by blast
qed

lemma demo_create_reordered: "create demo_ext demo_fs_reordered demo_cfg = Inr demo_created"
  by (simp add: create_def demo_defs demo_doc_names split_init_defs
      TrainingDatasetMetadata_init_def shuffles_in_order_def shuffle_key_def intern_split_def)

theorem create_tags_tf_any_order_witness:
  "create demo_ext demo_fs demo_cfg = Inr demo_created
   \<and> engine demo_50_1 = TF \<and> engine demo_60_1_tf = TF
   \<and> mset (trainset_files demo_fs_reordered) = mset (trainset_files demo_fs)
   \<and> trainset_files demo_fs_reordered \<noteq> trainset_files demo_fs
   \<and> create demo_ext demo_fs_reordered demo_cfg = Inr demo_created"
proof -
  note inst = create_tags_tf_any_order [OF demo_create, of demo_fs_reordered]
  have members: "demo_50_1 \<in> set (shuffles demo_created)"
    "demo_60_1_tf \<in> set (shuffles demo_created)"
    by (simp_all add: demo_created_def)
  from inst have all_tf: "\<forall>s\<in>set (shuffles demo_created). engine s = TF"
    by (rule conjunct1)
  from all_tf members(1) have e1: "engine demo_50_1 = TF"
    by (rule bspec)
  from all_tf members(2) have e2: "engine demo_60_1_tf = TF"
    by (rule bspec)
  have same: "mset (trainset_files demo_fs_reordered) = mset (trainset_files demo_fs)"
    by (simp add: demo_fs_reordered_def demo_fs_def)
  have differs: "trainset_files demo_fs_reordered \<noteq> trainset_files demo_fs"
    by (simp add: demo_fs_reordered_def demo_fs_def)
  from same have again: "create demo_ext demo_fs_reordered demo_cfg = Inr demo_created"
    by (rule inst [THEN conjunct2, THEN mp])
  from demo_create e1 e2 same differs again show ?thesis
    by (intro conjI)
qed

end
